theory Spec2Isabelle
  imports Complex_Main "HOL-Library.Sublist" "HOL-Library.Multiset"
begin

section \<open>Python values\<close>

text \<open>
  The values that \<^verbatim>\<open>json.loads\<close> produces. A Python \<^verbatim>\<open>str\<close> is the list of its
  characters; a JSON number (Python \<^verbatim>\<open>int\<close> or \<^verbatim>\<open>float\<close>) is the real number it denotes,
  so \<^verbatim>\<open>1 == 1.0\<close> holds as in Python (NaN and the infinities are left out); a
  \<^verbatim>\<open>dict\<close> is an association list read with \<open>map_of\<close>.
\<close>

datatype json =
    JNull
  | JBool bool
  | JNum real
  | JStr string
  | JList "json list"
  | JObj "(string \<times> json) list"

datatype py_error =
    AttributeError
  | TypeError
  | KeyError
  | ValueError
  | JSONDecodeError
  | DBAPIError

text \<open>
  What the code takes from outside the repository: \<^verbatim>\<open>json.loads\<close> on a string (\<open>None\<close> is
  \<^verbatim>\<open>JSONDecodeError\<close>), \<^verbatim>\<open>str.lower\<close>, \<^verbatim>\<open>float\<close> on a string (\<open>None\<close> is \<^verbatim>\<open>ValueError\<close>),
  the language model: \<^verbatim>\<open>model.generate_content(prompt).text\<close> as a function of the three
  things the prompt is built from (\<open>None\<close> when the call raises), and the text that the
  database gives to a number stored in a text column.

  A row of the table \<^verbatim>\<open>matches\<close> has the text of its \<^verbatim>\<open>String\<close> column; the \<^verbatim>\<open>Match\<close> object
  that line 106 builds holds the value it was given, which is any JSON value.
\<close>

record company =
  nif_code :: string
  company_name :: string
  cae_primary_code :: "string option"
  cae_secondary_codes :: "string option"
  city :: "string option"
  latest_number_of_employees :: "int option"
  english_trade_description :: "string option"

record incentive =
  incentive_id :: int
  title :: string
  ai_description :: "string option"

record match =
  match_incentive_id :: int
  company_nif :: string
  score :: real

record match_object =
  object_incentive_id :: int
  object_company_nif :: json
  object_score :: real

record externals =
  json_loads :: "string \<Rightarrow> json option"
  str_lower :: "string \<Rightarrow> string"
  str_to_float :: "string \<Rightarrow> real option"
  generate_content :: "json \<Rightarrow> json \<Rightarrow> company list \<Rightarrow> string option"
  number_text :: "real \<Rightarrow> string"

text \<open>\<^verbatim>\<open>json.loads(x)\<close> for a nullable text column: \<^verbatim>\<open>None\<close> raises \<^verbatim>\<open>TypeError\<close>.\<close>

definition py_json_loads :: "externals \<Rightarrow> string option \<Rightarrow> py_error + json" where
  "py_json_loads ext col =
     (case col of
        None \<Rightarrow> Inl TypeError
      | Some s \<Rightarrow> (case json_loads ext s of None \<Rightarrow> Inl JSONDecodeError | Some v \<Rightarrow> Inr v))"

text \<open>\<^verbatim>\<open>x.get(k)\<close>: only a dict has the method; an absent key gives \<^verbatim>\<open>None\<close>.\<close>

fun dict_get :: "json \<Rightarrow> string \<Rightarrow> py_error + json" where
  "dict_get (JObj kvs) k = Inr (case map_of kvs k of None \<Rightarrow> JNull | Some v \<Rightarrow> v)"
| "dict_get _ k = Inl AttributeError"

text \<open>\<^verbatim>\<open>x[k]\<close> with a string key.\<close>

fun py_getitem :: "json \<Rightarrow> string \<Rightarrow> py_error + json" where
  "py_getitem (JObj kvs) k = (case map_of kvs k of None \<Rightarrow> Inl KeyError | Some v \<Rightarrow> Inr v)"
| "py_getitem _ k = Inl TypeError"

text \<open>\<^verbatim>\<open>float(x)\<close>.\<close>

fun py_float :: "externals \<Rightarrow> json \<Rightarrow> py_error + real" where
  "py_float ext (JNum r) = Inr r"
| "py_float ext (JBool b) = Inr (if b then 1 else 0)"
| "py_float ext (JStr s) = (case str_to_float ext s of None \<Rightarrow> Inl ValueError | Some r \<Rightarrow> Inr r)"
| "py_float ext _ = Inl TypeError"

text \<open>Truth value of an object in a condition.\<close>

fun truthy :: "json \<Rightarrow> bool" where
  "truthy JNull = False"
| "truthy (JBool b) = b"
| "truthy (JNum r) = (r \<noteq> 0)"
| "truthy (JStr s) = (s \<noteq> [])"
| "truthy (JList xs) = (xs \<noteq> [])"
| "truthy (JObj kvs) = (kvs \<noteq> [])"

text \<open>Iteration: a list gives its elements, a dict its keys, a string its characters.\<close>

fun py_iter :: "json \<Rightarrow> py_error + json list" where
  "py_iter (JList xs) = Inr xs"
| "py_iter (JObj kvs) = Inr (map (\<lambda>kv. JStr (fst kv)) kvs)"
| "py_iter (JStr s) = Inr (map (\<lambda>c. JStr [c]) s)"
| "py_iter _ = Inl TypeError"

text \<open>
  Set elements: lists and dicts are unhashable; \<^verbatim>\<open>True\<close> and \<^verbatim>\<open>1\<close> are the same element.
\<close>

fun hashable :: "json \<Rightarrow> bool" where
  "hashable (JList xs) = False"
| "hashable (JObj kvs) = False"
| "hashable _ = True"

fun py_key :: "json \<Rightarrow> json" where
  "py_key (JBool b) = JNum (if b then 1 else 0)"
| "py_key v = v"

text \<open>\<^verbatim>\<open>set(xs)\<close> of a list.\<close>

definition py_set :: "json list \<Rightarrow> py_error + json set" where
  "py_set xs = (if list_all hashable xs then Inr (set (map py_key xs)) else Inl TypeError)"

text \<open>
  \<^verbatim>\<open>s.update(xs)\<close> inside \<^verbatim>\<open>try ... except TypeError: pass\<close>: elements are added one by one,
  and the ones added before an unhashable element stay.
\<close>

fun update_until_error :: "json set \<Rightarrow> json list \<Rightarrow> json set" where
  "update_until_error s [] = s"
| "update_until_error s (x # xs) =
     (if hashable x then update_until_error (insert (py_key x) s) xs else s)"

text \<open>
  \<^verbatim>\<open>round(x, n)\<close>: to the nearest multiple of \<open>10\<^sup>-\<^sup>n\<close>, halves to the even one. A
  \<^verbatim>\<open>float\<close> stands for the real number it denotes, here and below: the scores are quotients
  by 100 and are compared with 0.1 and 0 only.
\<close>

definition round_half_even :: "real \<Rightarrow> int" where
  "round_half_even x =
     (let f = \<lfloor>x\<rfloor>; d = x - of_int f
      in if d < 1 / 2 then f else if 1 / 2 < d then f + 1 else if even f then f else f + 1)"

definition py_round :: "real \<Rightarrow> nat \<Rightarrow> real" where
  "py_round x n = of_int (round_half_even (x * 10 ^ n)) / 10 ^ n"

text \<open>\<^verbatim>\<open>xs[:k]\<close>: a negative bound counts from the end.\<close>

definition slice_to :: "int \<Rightarrow> 'a list \<Rightarrow> 'a list" where
  "slice_to k xs = (if k < 0 then take (length xs - nat (- k)) xs else take (nat k) xs)"

text \<open>\<^verbatim>\<open>sorted(xs, key=f, reverse=True)\<close>: stable, descending.\<close>

definition sorted_reverse :: "('a \<Rightarrow> real) \<Rightarrow> 'a list \<Rightarrow> 'a list" where
  "sorted_reverse f xs = sort_key (\<lambda>x. - f x) xs"

section \<open>The deterministic scorer (matching.py)\<close>

definition nao_aplicavel :: string where
  "nao_aplicavel = ''n'' @ [CHR 0xE3] @ ''o aplic'' @ [CHR 0xE1] @ ''vel''"

text \<open>Lines 22 to 27: the company's code set.\<close>

definition company_caes :: "externals \<Rightarrow> company \<Rightarrow> json set" where
  "company_caes ext c =
     (let primary = {case cae_primary_code c of None \<Rightarrow> JNull | Some s \<Rightarrow> JStr s}
      in case cae_secondary_codes c of
           None \<Rightarrow> primary
         | Some s \<Rightarrow>
             if s = [] then primary
             else (case json_loads ext s of
                     None \<Rightarrow> primary
                   | Some v \<Rightarrow> (case py_iter v of
                                  Inl e \<Rightarrow> primary
                                | Inr xs \<Rightarrow> update_until_error primary xs)))"

text \<open>Lines 20 to 31: the industry dimension.\<close>

definition cae_points :: "externals \<Rightarrow> json \<Rightarrow> company \<Rightarrow> py_error + int" where
  "cae_points ext incentive_details c =
     (case dict_get incentive_details ''caes'' of
        Inl e \<Rightarrow> Inl e
      | Inr caes_value \<Rightarrow>
          (case (case caes_value of JList xs \<Rightarrow> py_set xs | _ \<Rightarrow> Inr {}) of
             Inl e \<Rightarrow> Inl e
           | Inr incentive_caes \<Rightarrow>
               Inr (if incentive_caes = {} then 50
                    else if company_caes ext c \<inter> incentive_caes \<noteq> {} then 50
                    else 0)))"

text \<open>Lines 33 to 39: the location dimension.\<close>

definition location_points :: "externals \<Rightarrow> json \<Rightarrow> company \<Rightarrow> py_error + int" where
  "location_points ext incentive_details c =
     (case dict_get incentive_details ''geographic_location'' of
        Inl e \<Rightarrow> Inl e
      | Inr location_value \<Rightarrow>
          (let incentive_loc = (case location_value of JStr s \<Rightarrow> str_lower ext s | _ \<Rightarrow> []);
               company_city = str_lower ext
                 (case city c of None \<Rightarrow> ''unknown''
                  | Some s \<Rightarrow> if s = [] then ''unknown'' else s)
           in Inr (if sublist ''nacional'' incentive_loc \<or> incentive_loc = [] then 30
                   else if company_city \<noteq> ''unknown'' \<and> sublist company_city incentive_loc then 30
                   else 0)))"

text \<open>Lines 41 to 53: the size dimension; comparing \<^verbatim>\<open>None\<close> with \<^verbatim>\<open>0\<close> raises.\<close>

definition size_points :: "externals \<Rightarrow> json \<Rightarrow> company \<Rightarrow> py_error + int" where
  "size_points ext incentive_details c =
     (case dict_get incentive_details ''dimension'' of
        Inl e \<Rightarrow> Inl e
      | Inr dimension_value \<Rightarrow>
          (let incentive_dim =
                 (case dimension_value of JStr s \<Rightarrow> str_lower ext s | _ \<Rightarrow> nao_aplicavel)
           in case latest_number_of_employees c of
                None \<Rightarrow> Inl TypeError
              | Some employees \<Rightarrow>
                  (let is_pme = (0 < employees \<and> employees < 250);
                       is_large = (250 \<le> employees)
                   in Inr (if sublist nao_aplicavel incentive_dim \<or> incentive_dim = [] then 20
                           else if sublist ''pme'' incentive_dim
                                   \<and> \<not> sublist ''grande'' incentive_dim \<and> is_pme then 20
                           else if sublist ''grande'' incentive_dim
                                   \<and> \<not> sublist ''pme'' incentive_dim \<and> is_large then 20
                           else if sublist ''pme'' incentive_dim
                                   \<and> sublist ''grande'' incentive_dim \<and> (is_pme \<or> is_large) then 20
                           else 0))))"

definition calculate_match_score :: "externals \<Rightarrow> json \<Rightarrow> company \<Rightarrow> py_error + real" where
  "calculate_match_score ext incentive_details c =
     (case cae_points ext incentive_details c of
        Inl e \<Rightarrow> Inl e
      | Inr cae \<Rightarrow>
          (case location_points ext incentive_details c of
             Inl e \<Rightarrow> Inl e
           | Inr location \<Rightarrow>
               (case size_points ext incentive_details c of
                  Inl e \<Rightarrow> Inl e
                | Inr sz \<Rightarrow> Inr (py_round (of_int (cae + location + sz) / 100) 4))))"

section \<open>The semantic scorer's adapter (llm_services.py)\<close>

text \<open>Line 168: the scores returned when the call or the parsing of its text raises.\<close>

definition zero_scores :: "company list \<Rightarrow> json" where
  "zero_scores companies_batch =
     JList (map (\<lambda>c. JObj [(''nif'', JStr (nif_code c)), (''score'', JNum 0)]) companies_batch)"

text \<open>
  Lines 142 to 144 run before the \<^verbatim>\<open>try\<close>, so their errors leave the function; lines 163 to
  165 are inside it.
\<close>

definition score_companies_for_incentive ::
  "externals \<Rightarrow> incentive \<Rightarrow> company list \<Rightarrow> py_error + json" where
  "score_companies_for_incentive ext inc companies_batch =
     (case py_json_loads ext (ai_description inc) of
        Inl e \<Rightarrow> Inl e
      | Inr structured_data \<Rightarrow>
          (case py_getitem structured_data ''object'' of
             Inl e \<Rightarrow> Inl e
           | Inr object_text \<Rightarrow>
               (case py_getitem structured_data ''criterios'' of
                  Inl e \<Rightarrow> Inl e
                | Inr criterios \<Rightarrow>
                    Inr (case generate_content ext object_text criterios companies_batch of
                           None \<Rightarrow> zero_scores companies_batch
                         | Some response_text \<Rightarrow>
                             (case json_loads ext response_text of
                                None \<Rightarrow> zero_scores companies_batch
                              | Some scores \<Rightarrow> scores)))))"

section \<open>The orchestrator (matching.py, find_and_store_matches)\<close>

record db =
  incentives :: "incentive list"
  companies :: "company list"
  matches :: "match list"

text \<open>
  The state of the loop: the objects added to the session and not yet committed, the
  counter, and a log of the calls to the adapter (the incentive and the batch passed).
\<close>

record run_state =
  pending :: "match_object list"
  total_matches_found :: nat
  llm_calls :: "(incentive \<times> company list) list"

definition N :: int where
  "N = 50"

definition MIN_RULE_SCORE :: real where
  "MIN_RULE_SCORE = 1 / 10"

text \<open>Line 90: the first score that raises ends the comprehension.\<close>

fun scores_of :: "externals \<Rightarrow> json \<Rightarrow> company list \<Rightarrow> py_error + (company \<times> real) list" where
  "scores_of ext incentive_details [] = Inr []"
| "scores_of ext incentive_details (c # cs) =
     (case calculate_match_score ext incentive_details c of
        Inl e \<Rightarrow> Inl e
      | Inr s \<Rightarrow> (case scores_of ext incentive_details cs of
                    Inl e \<Rightarrow> Inl e
                  | Inr rest \<Rightarrow> Inr ((c, s) # rest)))"

text \<open>Lines 91 to 93.\<close>

definition top_n_companies :: "(company \<times> real) list \<Rightarrow> company list" where
  "top_n_companies scores =
     map fst (slice_to N (sorted_reverse snd (filter (\<lambda>item. MIN_RULE_SCORE < snd item) scores)))"

text \<open>
  Lines 103 and 104. Each item is paired with \<^verbatim>\<open>float(item['score'])\<close>, which the source
  evaluates again as the sort key and for the row.
\<close>

fun item_scores :: "externals \<Rightarrow> json list \<Rightarrow> py_error + (json \<times> real) list" where
  "item_scores ext [] = Inr []"
| "item_scores ext (item # items) =
     (case py_getitem item ''score'' of
        Inl e \<Rightarrow> Inl e
      | Inr v \<Rightarrow> (case py_float ext v of
                    Inl e \<Rightarrow> Inl e
                  | Inr s \<Rightarrow> (case item_scores ext items of
                                Inl e \<Rightarrow> Inl e
                              | Inr rest \<Rightarrow> Inr ((item, s) # rest))))"

definition top_k_scores :: "externals \<Rightarrow> int \<Rightarrow> json \<Rightarrow> py_error + (json \<times> real) list" where
  "top_k_scores ext k llm_scores =
     (case py_iter llm_scores of
        Inl e \<Rightarrow> Inl e
      | Inr items \<Rightarrow>
          (case item_scores ext items of
             Inl e \<Rightarrow> Inl e
           | Inr scored \<Rightarrow>
               Inr (slice_to k (sorted_reverse snd (filter (\<lambda>item. 0 < snd item) scored)))))"

text \<open>Lines 105 to 108.\<close>

fun store_matches ::
  "incentive \<Rightarrow> (json \<times> real) list \<Rightarrow> run_state \<Rightarrow> py_error option \<times> run_state" where
  "store_matches inc [] st = (None, st)"
| "store_matches inc (item # items) st =
     (case py_getitem (fst item) ''nif'' of
        Inl e \<Rightarrow> (Some e, st)
      | Inr nif \<Rightarrow>
          store_matches inc items
            (st\<lparr>pending := pending st @
                   [\<lparr>object_incentive_id = incentive_id inc, object_company_nif = nif,
                     object_score = snd item\<rparr>],
                total_matches_found := total_matches_found st + 1\<rparr>))"

text \<open>
  Lines 84 to 97, the rule stage for one incentive: an incentive whose description does
  not parse and one with no company above the threshold both \<^verbatim>\<open>continue\<close> with nothing to
  score, which is the empty batch here; a score that raises leaves the run.
\<close>

definition rule_stage :: "externals \<Rightarrow> company list \<Rightarrow> incentive \<Rightarrow> py_error + company list" where
  "rule_stage ext cs inc =
     (case py_json_loads ext (ai_description inc) of
        Inl e \<Rightarrow> Inr []
      | Inr incentive_details \<Rightarrow>
          (case scores_of ext incentive_details cs of
             Inl e \<Rightarrow> Inl e
           | Inr scores \<Rightarrow> Inr (top_n_companies scores)))"

text \<open>Lines 100 to 104 and 110: the items to store for one incentive.\<close>

definition semantic_stage ::
  "externals \<Rightarrow> int \<Rightarrow> incentive \<Rightarrow> company list \<Rightarrow> py_error + (json \<times> real) list" where
  "semantic_stage ext k inc batch =
     (case score_companies_for_incentive ext inc batch of
        Inl e \<Rightarrow> Inl e
      | Inr llm_scores \<Rightarrow> if truthy llm_scores then top_k_scores ext k llm_scores else Inr [])"

text \<open>Lines 83 to 111: the body of the loop.\<close>

definition match_incentive ::
  "externals \<Rightarrow> int \<Rightarrow> company list \<Rightarrow> incentive \<Rightarrow> run_state \<Rightarrow> py_error option \<times> run_state" where
  "match_incentive ext k cs inc st =
     (case rule_stage ext cs inc of
        Inl e \<Rightarrow> (Some e, st)
      | Inr batch \<Rightarrow>
          if batch = [] then (None, st)
          else (let st1 = st\<lparr>llm_calls := llm_calls st @ [(inc, batch)]\<rparr>
                in case semantic_stage ext k inc batch of
                     Inl e \<Rightarrow> (Some e, st1)
                   | Inr top_k \<Rightarrow> store_matches inc top_k st1))"

fun match_loop ::
  "externals \<Rightarrow> int \<Rightarrow> company list \<Rightarrow> incentive list \<Rightarrow> run_state \<Rightarrow> py_error option \<times> run_state" where
  "match_loop ext k cs [] st = (None, st)"
| "match_loop ext k cs (inc # incs) st =
     (case match_incentive ext k cs inc st of
        (Some e, st') \<Rightarrow> (Some e, st')
      | (None, st') \<Rightarrow> match_loop ext k cs incs st')"

text \<open>
  Line 113, the commit that inserts the objects added. The column \<^verbatim>\<open>company_nif\<close> is a
  \<^verbatim>\<open>String\<close> that is not nullable: a \<^verbatim>\<open>str\<close> is stored as it is, a number (and \<^verbatim>\<open>True\<close> and
  \<^verbatim>\<open>False\<close>, which are bound as 1 and 0) as its text, so that the number 500 and the text
  \<^verbatim>\<open>"500"\<close> are the same in the table; \<^verbatim>\<open>None\<close>, a list and a dict make the statement fail.
  The statement that fails ends the commit.
\<close>

fun column_text :: "externals \<Rightarrow> json \<Rightarrow> string option" where
  "column_text ext (JStr s) = Some s"
| "column_text ext (JNum r) = Some (number_text ext r)"
| "column_text ext (JBool b) = Some (number_text ext (if b then 1 else 0))"
| "column_text ext _ = None"

fun commit_matches :: "externals \<Rightarrow> match_object list \<Rightarrow> py_error + match list" where
  "commit_matches ext [] = Inr []"
| "commit_matches ext (m # ms) =
     (case column_text ext (object_company_nif m) of
        None \<Rightarrow> Inl DBAPIError
      | Some stored_text \<Rightarrow>
          (case commit_matches ext ms of
             Inl e \<Rightarrow> Inl e
           | Inr rows \<Rightarrow>
               Inr (\<lparr>match_incentive_id = object_incentive_id m, company_nif = stored_text,
                     score = object_score m\<rparr> # rows)))"

text \<open>
  What a run leaves: the committed database, the exception that left the function or the
  value it returned, the calls made to the adapter, and the number in the last message
  printed (line 114) when that line is reached.

  The deletion is committed at line 75; the rows added are committed at line 113 only, so
  a run that raises leaves the table empty (both callers close the session in a
  \<^verbatim>\<open>finally\<close>). The function has no \<^verbatim>\<open>return\<close> with a value: it returns \<^verbatim>\<open>None\<close>.
\<close>

record outcome =
  db_after :: db
  result :: "py_error + json"
  calls :: "(incentive \<times> company list) list"
  stored_message :: "nat option"

definition find_and_store_matches :: "externals \<Rightarrow> db \<Rightarrow> int \<Rightarrow> outcome" where
  "find_and_store_matches ext d k =
     (if incentives d = [] \<or> companies d = []
      then \<lparr>db_after = d, result = Inr JNull, calls = [], stored_message = None\<rparr>
      else (case match_loop ext k (companies d) (incentives d)
                   \<lparr>pending = [], total_matches_found = 0, llm_calls = []\<rparr> of
              (Some e, st) \<Rightarrow>
                \<lparr>db_after = d\<lparr>matches := []\<rparr>, result = Inl e, calls = llm_calls st,
                 stored_message = None\<rparr>
            | (None, st) \<Rightarrow>
                (case commit_matches ext (pending st) of
                   Inl e \<Rightarrow>
                     \<lparr>db_after = d\<lparr>matches := []\<rparr>, result = Inl e, calls = llm_calls st,
                      stored_message = None\<rparr>
                 | Inr rows \<Rightarrow>
                     \<lparr>db_after = d\<lparr>matches := rows\<rparr>, result = Inr JNull,
                      calls = llm_calls st,
                      stored_message = Some (total_matches_found st)\<rparr>)))"

section \<open>Predicates used in the statements\<close>

text \<open>The element that the primary code contributes to the company's code set.\<close>

definition primary_code :: "company \<Rightarrow> json" where
  "primary_code c = (case cae_primary_code c of None \<Rightarrow> JNull | Some s \<Rightarrow> JStr s)"

text \<open>
  \<open>semantic_score ext llm_scores item s\<close>: \<open>item\<close> is an element of the adapter's result
  and \<open>s\<close> is \<^verbatim>\<open>float(item['score'])\<close>. \<open>nif_text ext item\<close>: the text that the table holds
  for \<^verbatim>\<open>item['nif']\<close>. \<open>stored inc item m\<close>: the object \<open>m\<close> is the one line 106 builds from
  \<open>item\<close>. \<open>rows_of_incentive ext k cs inc rows\<close>: \<open>rows\<close> are the objects one pass of the
  loop adds for \<open>inc\<close>. \<open>row_of ext m\<close>: the row inserted for the object \<open>m\<close>.
\<close>

definition semantic_score :: "externals \<Rightarrow> json \<Rightarrow> json \<Rightarrow> real \<Rightarrow> bool" where
  "semantic_score ext llm_scores item s \<longleftrightarrow>
     (\<exists>items v. py_iter llm_scores = Inr items \<and> item \<in> set items
        \<and> py_getitem item ''score'' = Inr v \<and> py_float ext v = Inr s)"

definition nif_text :: "externals \<Rightarrow> json \<Rightarrow> py_error + string" where
  "nif_text ext item =
     (case py_getitem item ''nif'' of
        Inl e \<Rightarrow> Inl e
      | Inr v \<Rightarrow> (case column_text ext v of None \<Rightarrow> Inl DBAPIError | Some t \<Rightarrow> Inr t))"

definition stored :: "incentive \<Rightarrow> json \<times> real \<Rightarrow> match_object \<Rightarrow> bool" where
  "stored inc item m \<longleftrightarrow>
     object_incentive_id m = incentive_id inc
     \<and> py_getitem (fst item) ''nif'' = Inr (object_company_nif m) \<and> object_score m = snd item"

definition row_of :: "externals \<Rightarrow> match_object \<Rightarrow> match" where
  "row_of ext m =
     \<lparr>match_incentive_id = object_incentive_id m,
      company_nif = (case column_text ext (object_company_nif m) of None \<Rightarrow> [] | Some t \<Rightarrow> t),
      score = object_score m\<rparr>"

definition rows_of_incentive ::
  "externals \<Rightarrow> int \<Rightarrow> company list \<Rightarrow> incentive \<Rightarrow> match_object list \<Rightarrow> bool" where
  "rows_of_incentive ext k cs inc rows \<longleftrightarrow>
     rows = [] \<or>
     (\<exists>batch top_k. rule_stage ext cs inc = Inr batch \<and> batch \<noteq> []
        \<and> semantic_stage ext k inc batch = Inr top_k \<and> list_all2 (stored inc) top_k rows)"

section \<open>Concrete inputs\<close>

text \<open>
  A small instance of the externals for evaluating the definitions: \<^verbatim>\<open>json.loads\<close> on the
  texts used below, lower-casing of ASCII letters, a language model that answers every
  prompt with the same text (or raises, for \<open>None\<close>), and the texts of the numbers 500, 1
  and 0.
\<close>

definition ascii_lower :: "string \<Rightarrow> string" where
  "ascii_lower s =
     map (\<lambda>c. case map_of (zip ''ABCDEFGHIJKLMNOPQRSTUVWXYZ'' ''abcdefghijklmnopqrstuvwxyz'') c of
                None \<Rightarrow> c | Some l \<Rightarrow> l) s"

definition criteria_text :: string where
  \<open>criteria_text = ''{"caes": ["62"], "geographic_location": "Nacional", "dimension": "", "object": "o", "criterios": "c"}''\<close>

definition criteria :: json where
  "criteria =
     JObj [(''caes'', JList [JStr ''62'']), (''geographic_location'', JStr ''Nacional''),
           (''dimension'', JStr []), (''object'', JStr ''o''), (''criterios'', JStr ''c'')]"

definition nested_caes_text :: string where
  \<open>nested_caes_text = ''{"caes": [["62"]]}''\<close>

definition nested_caes :: json where
  "nested_caes = JObj [(''caes'', JList [JList [JStr ''62'']])]"

definition scores_text :: string where
  \<open>scores_text = ''[{"nif": "500", "score": 0.9}, {"nif": "501", "score": 0.4}]''\<close>

definition mixed_scores_text :: string where
  \<open>mixed_scores_text = ''[{"nif": 500, "score": 0.9}, {"nif": "500", "score": 0.4}]''\<close>

definition large_scores_text :: string where
  \<open>large_scores_text = ''[{"nif": "500", "score": 5}, {"nif": "500", "score": 5}]''\<close>

definition error_object_text :: string where
  \<open>error_object_text = ''{"error": "quota"}''\<close>

definition secondary_text :: string where
  \<open>secondary_text = ''["62", "63"]''\<close>

definition criteria_with :: "string \<Rightarrow> string \<Rightarrow> json" where
  "criteria_with location dimension =
     JObj [(''caes'', JList [JStr ''62'']), (''geographic_location'', JStr location),
           (''dimension'', JStr dimension)]"

definition partial_secondary_text :: string where
  \<open>partial_secondary_text = ''["62", ["63"]]''\<close>

definition porto_criteria_text :: string where
  \<open>porto_criteria_text = ''{"caes": ["62"], "geographic_location": "Porto", "dimension": "Grandes Empresas", "object": "o", "criterios": "c"}''\<close>

definition porto_criteria :: json where
  "porto_criteria =
     JObj [(''caes'', JList [JStr ''62'']), (''geographic_location'', JStr ''Porto''),
           (''dimension'', JStr ''Grandes Empresas''), (''object'', JStr ''o''),
           (''criterios'', JStr ''c'')]"

definition example_loads :: "string \<Rightarrow> json option" where
  "example_loads =
     map_of
       [(criteria_text, criteria),
        (porto_criteria_text, porto_criteria),
        (nested_caes_text, nested_caes),
        (scores_text,
         JList [JObj [(''nif'', JStr ''500''), (''score'', JNum (9 / 10))],
                JObj [(''nif'', JStr ''501''), (''score'', JNum (4 / 10))]]),
        (mixed_scores_text,
         JList [JObj [(''nif'', JNum 500), (''score'', JNum (9 / 10))],
                JObj [(''nif'', JStr ''500''), (''score'', JNum (4 / 10))]]),
        (large_scores_text,
         JList [JObj [(''nif'', JStr ''500''), (''score'', JNum 5)],
                JObj [(''nif'', JStr ''500''), (''score'', JNum 5)]]),
        (error_object_text, JObj [(''error'', JStr ''quota'')]),
        (secondary_text, JList [JStr ''62'', JStr ''63'']),
        (partial_secondary_text, JList [JStr ''62'', JList [JStr ''63'']])]"

definition example_ext :: "string option \<Rightarrow> externals" where
  "example_ext response =
     \<lparr>json_loads = example_loads, str_lower = ascii_lower, str_to_float = (\<lambda>s. None),
      generate_content = (\<lambda>object_text criterios companies_batch. response),
      number_text = (\<lambda>r. if r = 500 then ''500'' else if r = 1 then ''1'' else ''0'')\<rparr>"

definition company_a :: company where
  "company_a =
     \<lparr>nif_code = ''500'', company_name = ''A'', cae_primary_code = Some ''62'',
      cae_secondary_codes = None, city = Some ''Lisboa'', latest_number_of_employees = Some 10,
      english_trade_description = None\<rparr>"

definition company_b :: company where
  "company_b =
     \<lparr>nif_code = ''501'', company_name = ''B'', cae_primary_code = Some ''41'',
      cae_secondary_codes = None, city = Some ''Lisboa'', latest_number_of_employees = Some 10,
      english_trade_description = None\<rparr>"

definition company_s :: company where
  "company_s = company_b\<lparr>cae_secondary_codes := Some secondary_text\<rparr>"

definition company_m :: company where
  "company_m = company_b\<lparr>cae_secondary_codes := Some partial_secondary_text\<rparr>"

definition company_c :: company where
  "company_c =
     \<lparr>nif_code = ''502'', company_name = ''C'', cae_primary_code = Some ''62'',
      cae_secondary_codes = None, city = Some ''Porto'', latest_number_of_employees = Some 300,
      english_trade_description = None\<rparr>"

definition company_d :: company where
  "company_d =
     \<lparr>nif_code = ''503'', company_name = ''D'', cae_primary_code = Some ''62'',
      cae_secondary_codes = None, city = Some ''Lisboa'', latest_number_of_employees = Some 10,
      english_trade_description = None\<rparr>"

definition example_incentive :: incentive where
  "example_incentive = \<lparr>incentive_id = 1, title = ''Apoio'', ai_description = Some criteria_text\<rparr>"

definition old_match :: match where
  "old_match = \<lparr>match_incentive_id = 7, company_nif = ''499'', score = 1 / 2\<rparr>"

definition porto_incentive :: incentive where
  "porto_incentive = \<lparr>incentive_id = 2, title = ''Porto'', ai_description = Some porto_criteria_text\<rparr>"

definition porto_db :: db where
  "porto_db =
     \<lparr>incentives = [porto_incentive], companies = [company_b, company_a, company_c, company_d],
      matches = [old_match]\<rparr>"

definition example_db :: db where
  "example_db =
     \<lparr>incentives = [example_incentive], companies = [company_a, company_b],
      matches = [old_match]\<rparr>"

definition many_db :: db where
  "many_db =
     \<lparr>incentives = [example_incentive], companies = company_b # replicate 51 company_a,
      matches = [old_match]\<rparr>"

definition no_incentives_db :: db where
  "no_incentives_db = \<lparr>incentives = [], companies = [company_a, company_b], matches = [old_match]\<rparr>"

section \<open>Evaluation\<close>

lemmas example_defs =
  example_ext_def example_loads_def criteria_text_def criteria_def nested_caes_text_def
  nested_caes_def scores_text_def mixed_scores_text_def large_scores_text_def error_object_text_def secondary_text_def
  company_a_def company_b_def company_c_def company_d_def company_s_def company_m_def
  porto_criteria_text_def porto_criteria_def porto_incentive_def porto_db_def criteria_with_def
  partial_secondary_text_def example_incentive_def old_match_def example_db_def no_incentives_db_def ascii_lower_def

lemmas model_defs =
  calculate_match_score_def cae_points_def location_points_def size_points_def
  company_caes_def py_set_def py_round_def round_half_even_def nao_aplicavel_def sublist_code
  find_and_store_matches_def match_incentive_def rule_stage_def semantic_stage_def
  top_n_companies_def top_k_scores_def slice_to_def sorted_reverse_def
  score_companies_for_incentive_def py_json_loads_def N_def MIN_RULE_SCORE_def zero_scores_def

section \<open>The scorer: values and errors\<close>

lemma py_round_hundredths:
  shows "py_round (of_int w / 100) 4 = of_int w / 100"
proof -
  have "of_int w / 100 * 10 ^ 4 = (of_int (w * 100) :: real)" by simp
  then have "round_half_even (of_int w / 100 * 10 ^ 4) = w * 100"
    by (simp only: round_half_even_def Let_def floor_of_int) simp
  then show ?thesis by (simp add: py_round_def)
qed

lemma cae_points_values: "cae_points ext d c = Inr p \<Longrightarrow> p = 0 \<or> p = 50"
  by (auto simp: cae_points_def split: sum.splits if_splits)

lemma location_points_values: "location_points ext d c = Inr p \<Longrightarrow> p = 0 \<or> p = 30"
  by (auto simp: location_points_def Let_def split: sum.splits if_splits)

lemma size_points_values: "size_points ext d c = Inr p \<Longrightarrow> p = 0 \<or> p = 20"
  by (auto simp: size_points_def Let_def split: sum.splits option.splits if_splits)

lemma calculate_match_score_InrD:
  assumes "calculate_match_score ext d c = Inr s"
  obtains cae loc sz where "cae_points ext d c = Inr cae" "location_points ext d c = Inr loc"
    "size_points ext d c = Inr sz" "s = of_int (cae + loc + sz) / 100"
proof -
  from assms obtain cae loc sz where p: "cae_points ext d c = Inr cae" "location_points ext d c = Inr loc"
    "size_points ext d c = Inr sz" and s: "s = py_round (of_int (cae + loc + sz) / 100) 4"
    by (auto simp: calculate_match_score_def split: sum.splits)
  have "s = of_int (cae + loc + sz) / 100" unfolding s by (rule py_round_hundredths)
  with p show ?thesis using that by blast
qed

lemma score_in_seven_values:
  assumes "calculate_match_score ext d c = Inr s"
  shows "s \<in> {0, 2/10, 3/10, 5/10, 7/10, 8/10, 1}"
proof -
  from assms obtain cae loc sz where p: "cae_points ext d c = Inr cae" "location_points ext d c = Inr loc"
    "size_points ext d c = Inr sz" and s: "s = of_int (cae + loc + sz) / 100"
    by (rule calculate_match_score_InrD)
  show ?thesis
    using cae_points_values[OF p(1)] location_points_values[OF p(2)] size_points_values[OF p(3)] s
    by auto
qed

lemma update_until_error_eq:
  "update_until_error s xs = s \<union> py_key ` set (takeWhile hashable xs)"
  by (induction xs arbitrary: s) auto

lemma company_caes_missing:
  "cae_secondary_codes c = None \<or> cae_secondary_codes c = Some [] \<Longrightarrow>
   company_caes ext c = {primary_code c}"
  by (auto simp: company_caes_def primary_code_def Let_def)

lemma company_caes_unparsed:
  "cae_secondary_codes c = Some s \<Longrightarrow> json_loads ext s = None \<Longrightarrow>
   company_caes ext c = {primary_code c}"
  by (simp add: company_caes_def primary_code_def Let_def)

lemma company_caes_not_iterable:
  "cae_secondary_codes c = Some s \<Longrightarrow> json_loads ext s = Some v \<Longrightarrow> py_iter v = Inl e \<Longrightarrow>
   company_caes ext c = {primary_code c}"
  by (simp add: company_caes_def primary_code_def Let_def)

lemma company_caes_iterable:
  "cae_secondary_codes c = Some s \<Longrightarrow> s \<noteq> [] \<Longrightarrow> json_loads ext s = Some v \<Longrightarrow>
   py_iter v = Inr ys \<Longrightarrow>
   company_caes ext c = insert (primary_code c) (py_key ` set (takeWhile hashable ys))"
  by (simp add: company_caes_def primary_code_def Let_def update_until_error_eq)

lemma cae_points_no_codes:
  "dict_get d ''caes'' = Inr v \<Longrightarrow> (\<forall>xs. v \<noteq> JList xs) \<or> v = JList [] \<Longrightarrow>
   cae_points ext d c = Inr 50"
  by (cases v) (auto simp: cae_points_def py_set_def)

lemma cae_points_codes:
  "dict_get d ''caes'' = Inr (JList xs) \<Longrightarrow> xs \<noteq> [] \<Longrightarrow> list_all hashable xs \<Longrightarrow>
   cae_points ext d c = Inr (if company_caes ext c \<inter> py_key ` set xs \<noteq> {} then 50 else 0)"
  by (auto simp: cae_points_def py_set_def)

lemma cae_points_unhashable:
  "dict_get d ''caes'' = Inr (JList xs) \<Longrightarrow> \<not> list_all hashable xs \<Longrightarrow>
   cae_points ext d c = Inl TypeError"
  by (auto simp: cae_points_def py_set_def)

lemma dict_get_Inr: "dict_get d k = Inr v \<Longrightarrow> \<exists>v'. dict_get d k' = Inr v'"
  by (cases d) auto

lemma calculate_match_score_total:
  assumes "dict_get d ''caes'' = Inr v" "\<forall>xs. v = JList xs \<longrightarrow> list_all hashable xs"
    "latest_number_of_employees c = Some n"
  shows "\<exists>s. calculate_match_score ext d c = Inr s"
proof -
  have 1: "\<exists>p. cae_points ext d c = Inr p"
    using assms(1,2) by (cases v) (auto simp: cae_points_def py_set_def)
  obtain kvs where d: "d = JObj kvs" using assms(1) by (cases d) auto
  have 2: "\<exists>p. location_points ext d c = Inr p"
    by (simp add: location_points_def d Let_def)
  have 3: "\<exists>p. size_points ext d c = Inr p"
    using assms(3) by (simp add: size_points_def d Let_def)
  from 1 2 3 show ?thesis by (auto simp: calculate_match_score_def)
qed

section \<open>The stages of the loop\<close>

subsection \<open>Sorting and slicing\<close>

lemma slice_to_take: "\<exists>n. slice_to k xs = take n xs"
  by (auto simp: slice_to_def)

lemma length_slice_to: "0 \<le> k \<Longrightarrow> length (slice_to k xs) \<le> nat k"
  by (simp add: slice_to_def)

lemma set_slice_to: "set (slice_to k xs) \<subseteq> set xs"
  by (auto simp: slice_to_def dest: in_set_takeD)

lemma sorted_wrt_sorted_reverse: "sorted_wrt (\<lambda>a b. f b \<le> f a) (sorted_reverse f xs)"
proof -
  have "sorted (map (\<lambda>x. - f x) (sort_key (\<lambda>x. - f x) xs))" by (rule sorted_sort_key)
  then show ?thesis by (simp add: sorted_reverse_def sorted_wrt_map)
qed

lemma sorted_wrt_slice_to: "sorted_wrt P xs \<Longrightarrow> sorted_wrt P (slice_to k xs)"
  by (auto simp: slice_to_def sorted_wrt_take)

lemma mset_sorted_reverse: "mset (sorted_reverse f xs) = mset xs"
  by (simp add: sorted_reverse_def)

lemma set_sorted_reverse: "set (sorted_reverse f xs) = set xs"
  by (simp add: sorted_reverse_def)

lemma sorted_reverse_stable:
  "filter (\<lambda>x. f x = s) (sorted_reverse f xs) = filter (\<lambda>x. f x = s) xs"
proof -
  have "filter (\<lambda>x. - f x = - s) (sort_key (\<lambda>x. - f x) xs) = filter (\<lambda>x. - f x = - s) xs"
    by (rule sort_key_stable)
  then show ?thesis by (simp add: sorted_reverse_def)
qed

lemma distinct_map_sorted_reverse:
  "distinct (map g xs) \<Longrightarrow> distinct (map g (sorted_reverse f xs))"
proof -
  have "mset (map g (sorted_reverse f xs)) = mset (map g xs)"
    by (simp add: mset_sorted_reverse)
  then show "distinct (map g xs) \<Longrightarrow> distinct (map g (sorted_reverse f xs))"
    by (metis mset_eq_imp_distinct_iff)
qed

lemma distinct_map_slice_to:
  "distinct (map g xs) \<Longrightarrow> distinct (map g (slice_to k xs))"
  by (auto simp: slice_to_def take_map[symmetric])

subsection \<open>The rule stage\<close>

lemma scores_of_Inr:
  "scores_of ext d cs = Inr scores \<Longrightarrow>
   list_all2 (\<lambda>c item. fst item = c \<and> calculate_match_score ext d c = Inr (snd item)) cs scores"
  by (induction cs arbitrary: scores) (auto split: sum.splits)

lemma length_top_n_companies: "length (top_n_companies scores) \<le> 50"
  by (simp add: top_n_companies_def slice_to_def N_def)

lemma top_n_companies_eq:
  "top_n_companies scores =
     map fst (take 50 (sorted_reverse snd (filter (\<lambda>item. 1 / 10 < snd item) scores)))"
  by (simp add: top_n_companies_def slice_to_def N_def MIN_RULE_SCORE_def)

subsection \<open>The semantic stage\<close>

lemma item_scores_Inr:
  "item_scores ext items = Inr scored \<Longrightarrow>
   list_all2 (\<lambda>item x. fst x = item
       \<and> (\<exists>v. py_getitem item ''score'' = Inr v \<and> py_float ext v = Inr (snd x))) items scored"
  by (induction items arbitrary: scored) (auto split: sum.splits)

lemma item_scores_fst: "item_scores ext items = Inr scored \<Longrightarrow> map fst scored = items"
  by (induction items arbitrary: scored) (auto split: sum.splits)

lemma item_scores_member:
  assumes "item_scores ext items = Inr scored" "x \<in> set scored"
  shows "fst x \<in> set items
         \<and> (\<exists>v. py_getitem (fst x) ''score'' = Inr v \<and> py_float ext v = Inr (snd x))"
  using assms by (induction items arbitrary: scored) (auto split: sum.splits)

lemma semantic_stage_Inr:
  assumes "semantic_stage ext k inc batch = Inr top_k"
  shows "top_k = [] \<or>
         (\<exists>llm_scores items scored. score_companies_for_incentive ext inc batch = Inr llm_scores
            \<and> py_iter llm_scores = Inr items \<and> item_scores ext items = Inr scored
            \<and> top_k = slice_to k (sorted_reverse snd (filter (\<lambda>item. 0 < snd item) scored)))"
  using assms by (auto simp: semantic_stage_def top_k_scores_def split: sum.splits if_splits)

lemma semantic_stage_member:
  assumes "semantic_stage ext k inc batch = Inr top_k" "x \<in> set top_k"
  shows "0 < snd x \<and> (\<exists>llm_scores. score_companies_for_incentive ext inc batch = Inr llm_scores
            \<and> semantic_score ext llm_scores (fst x) (snd x))"
proof -
  from semantic_stage_Inr[OF assms(1)] assms(2)
  obtain llm_scores items scored where
    a: "score_companies_for_incentive ext inc batch = Inr llm_scores"
    and i: "py_iter llm_scores = Inr items" and s: "item_scores ext items = Inr scored"
    and t: "top_k = slice_to k (sorted_reverse snd (filter (\<lambda>item. 0 < snd item) scored))"
    by auto
  from assms(2) t have "x \<in> set (sorted_reverse snd (filter (\<lambda>item. 0 < snd item) scored))"
    using set_slice_to by fastforce
  then have x: "x \<in> set scored" "0 < snd x" by (auto simp: set_sorted_reverse)
  from item_scores_member[OF s x(1)] a i x(2) show ?thesis
    by (auto simp: semantic_score_def)
qed

lemma semantic_stage_sorted:
  assumes "semantic_stage ext k inc batch = Inr top_k"
  shows "sorted_wrt (\<lambda>a b. snd b \<le> snd a) top_k"
  using semantic_stage_Inr[OF assms]
  by (auto intro!: sorted_wrt_slice_to sorted_wrt_sorted_reverse)

lemma semantic_stage_length:
  assumes "semantic_stage ext k inc batch = Inr top_k" "0 \<le> k"
  shows "length top_k \<le> nat k"
  using semantic_stage_Inr[OF assms(1)] assms(2) by (auto intro: length_slice_to)

lemma semantic_stage_distinct:
  assumes "semantic_stage ext k inc batch = Inr top_k"
    and "\<And>llm_scores items. score_companies_for_incentive ext inc batch = Inr llm_scores \<Longrightarrow>
           py_iter llm_scores = Inr items \<Longrightarrow> distinct (map h items)"
  shows "distinct (map (\<lambda>x. h (fst x)) top_k)"
proof -
  from semantic_stage_Inr[OF assms(1)] show ?thesis
  proof
    assume "top_k = []" then show ?thesis by simp
  next
    assume "\<exists>llm_scores items scored. score_companies_for_incentive ext inc batch = Inr llm_scores
            \<and> py_iter llm_scores = Inr items \<and> item_scores ext items = Inr scored
            \<and> top_k = slice_to k (sorted_reverse snd (filter (\<lambda>item. 0 < snd item) scored))"
    then obtain llm_scores items scored where
      a: "score_companies_for_incentive ext inc batch = Inr llm_scores"
      and i: "py_iter llm_scores = Inr items" and s: "item_scores ext items = Inr scored"
      and t: "top_k = slice_to k (sorted_reverse snd (filter (\<lambda>item. 0 < snd item) scored))"
      by auto
    have "distinct (map h (map fst scored))"
      using assms(2)[OF a i] item_scores_fst[OF s] by simp
    then have "distinct (map (\<lambda>x. h (fst x)) scored)"
      by (simp add: comp_def)
    then have "distinct (map (\<lambda>x. h (fst x)) (filter (\<lambda>item. 0 < snd item) scored))"
      by (rule distinct_map_filter)
    then show ?thesis unfolding t
      by (intro distinct_map_slice_to distinct_map_sorted_reverse)
  qed
qed

subsection \<open>Storing\<close>

lemma store_matches_effect:
  "store_matches inc items st = (r, st') \<Longrightarrow>
   llm_calls st' = llm_calls st \<and>
   (\<exists>rows. pending st' = pending st @ rows
      \<and> total_matches_found st' = total_matches_found st + length rows
      \<and> (r = None \<longrightarrow> list_all2 (stored inc) items rows))"
proof (induction items arbitrary: st)
  case Nil
  then show ?case by auto
next
  case (Cons item items)
  show ?case
  proof (cases "py_getitem (fst item) ''nif''")
    case (Inl e)
    with Cons.prems show ?thesis by auto
  next
    case (Inr nif)
    let ?m = "\<lparr>object_incentive_id = incentive_id inc, object_company_nif = nif,
                object_score = snd item\<rparr>"
    let ?st = "st\<lparr>pending := pending st @ [?m],
                   total_matches_found := total_matches_found st + 1\<rparr>"
    from Cons.prems Inr have "store_matches inc items ?st = (r, st')" by simp
    from Cons.IH[OF this] obtain rows where
      c: "llm_calls st' = llm_calls st"
      and p: "pending st' = pending st @ ?m # rows"
      and t: "total_matches_found st' = total_matches_found st + length (?m # rows)"
      and l: "r = None \<longrightarrow> list_all2 (stored inc) items rows"
      by auto
    have "stored inc item ?m" using Inr by (simp add: stored_def)
    with l have "r = None \<longrightarrow> list_all2 (stored inc) (item # items) (?m # rows)" by simp
    with c p t show ?thesis by blast
  qed
qed

subsection \<open>One incentive\<close>

lemma match_incentive_calls:
  assumes "match_incentive ext k cs inc st = (r, st')"
  shows "\<exists>new. llm_calls st' = llm_calls st @ new
           \<and> (new = [] \<or> (\<exists>batch. new = [(inc, batch)] \<and> rule_stage ext cs inc = Inr batch
                              \<and> batch \<noteq> []))"
proof (cases "rule_stage ext cs inc")
  case (Inl e)
  with assms show ?thesis by (auto simp: match_incentive_def)
next
  case (Inr batch)
  show ?thesis
  proof (cases "batch = []")
    case True
    with assms Inr show ?thesis by (auto simp: match_incentive_def)
  next
    case False
    let ?st1 = "st\<lparr>llm_calls := llm_calls st @ [(inc, batch)]\<rparr>"
    have "llm_calls st' = llm_calls ?st1"
    proof (cases "semantic_stage ext k inc batch")
      case (Inl e)
      with assms Inr False show ?thesis by (auto simp: match_incentive_def Let_def)
    next
      case (Inr top_k)
      with assms \<open>rule_stage ext cs inc = Inr batch\<close> False
      have "store_matches inc top_k ?st1 = (r, st')" by (simp add: match_incentive_def Let_def)
      from store_matches_effect[OF this] show ?thesis by simp
    qed
    with Inr False show ?thesis by auto
  qed
qed

lemma match_incentive_rows:
  assumes "match_incentive ext k cs inc st = (None, st')"
  shows "\<exists>rows. pending st' = pending st @ rows
           \<and> total_matches_found st' = total_matches_found st + length rows
           \<and> rows_of_incentive ext k cs inc rows"
proof (cases "rule_stage ext cs inc")
  case (Inl e)
  with assms show ?thesis by (auto simp: match_incentive_def)
next
  case (Inr batch)
  show ?thesis
  proof (cases "batch = []")
    case True
    with assms Inr show ?thesis by (auto simp: match_incentive_def rows_of_incentive_def)
  next
    case False
    let ?st1 = "st\<lparr>llm_calls := llm_calls st @ [(inc, batch)]\<rparr>"
    show ?thesis
    proof (cases "semantic_stage ext k inc batch")
      case (Inl e)
      with assms Inr False show ?thesis by (auto simp: match_incentive_def Let_def)
    next
      case top: (Inr top_k)
      with assms Inr False
      have "store_matches inc top_k ?st1 = (None, st')" by (simp add: match_incentive_def Let_def)
      from store_matches_effect[OF this] obtain rows where
        "pending st' = pending st @ rows"
        "total_matches_found st' = total_matches_found st + length rows"
        "list_all2 (stored inc) top_k rows"
        by auto
      with Inr False top show ?thesis unfolding rows_of_incentive_def by blast
    qed
  qed
qed

subsection \<open>The loop\<close>

lemma match_loop_calls:
  "match_loop ext k cs incs st = (r, st') \<Longrightarrow>
   \<exists>new. llm_calls st' = llm_calls st @ new \<and> subseq (map fst new) incs
      \<and> (\<forall>(inc, batch) \<in> set new. rule_stage ext cs inc = Inr batch \<and> batch \<noteq> [])"
proof (induction incs arbitrary: st)
  case Nil
  then show ?case by auto
next
  case (Cons inc incs)
  obtain r1 st1 where m: "match_incentive ext k cs inc st = (r1, st1)" by (cases "match_incentive ext k cs inc st")
  from match_incentive_calls[OF m] obtain new1 where
    n1: "llm_calls st1 = llm_calls st @ new1"
    and n1': "new1 = [] \<or> (\<exists>batch. new1 = [(inc, batch)] \<and> rule_stage ext cs inc = Inr batch \<and> batch \<noteq> [])"
    by auto
  have s1: "subseq (map fst new1) [inc]" using n1' by auto
  have p1: "\<forall>(i, b) \<in> set new1. rule_stage ext cs i = Inr b \<and> b \<noteq> []" using n1' by auto
  show ?case
  proof (cases r1)
    case (Some e)
    with Cons.prems m have "st' = st1" by simp
    moreover have "subseq (map fst new1) (inc # incs)"
      using n1' by auto
    ultimately show ?thesis using n1 p1 by blast
  next
    case None
    with Cons.prems m have "match_loop ext k cs incs st1 = (r, st')" by simp
    from Cons.IH[OF this] obtain new2 where
      n2: "llm_calls st' = llm_calls st1 @ new2" and s2: "subseq (map fst new2) incs"
      and p2: "\<forall>(i, b) \<in> set new2. rule_stage ext cs i = Inr b \<and> b \<noteq> []"
      by auto
    have "subseq (map fst (new1 @ new2)) (inc # incs)"
      using n1' s2 by auto
    moreover have "llm_calls st' = llm_calls st @ (new1 @ new2)" using n1 n2 by simp
    moreover have "\<forall>(i, b) \<in> set (new1 @ new2). rule_stage ext cs i = Inr b \<and> b \<noteq> []"
      using p1 p2 by auto
    ultimately show ?thesis by blast
  qed
qed

lemma match_loop_rows:
  "match_loop ext k cs incs st = (None, st') \<Longrightarrow>
   \<exists>rowss. pending st' = pending st @ concat rowss
      \<and> total_matches_found st' = total_matches_found st + length (concat rowss)
      \<and> list_all2 (rows_of_incentive ext k cs) incs rowss"
proof (induction incs arbitrary: st)
  case Nil
  then show ?case by auto
next
  case (Cons inc incs)
  obtain r1 st1 where m: "match_incentive ext k cs inc st = (r1, st1)" by (cases "match_incentive ext k cs inc st")
  with Cons.prems have r1: "r1 = None" by (cases r1) auto
  with Cons.prems m have "match_loop ext k cs incs st1 = (None, st')" by simp
  from Cons.IH[OF this] obtain rowss where
    a: "pending st' = pending st1 @ concat rowss"
    "total_matches_found st' = total_matches_found st1 + length (concat rowss)"
    "list_all2 (rows_of_incentive ext k cs) incs rowss"
    by auto
  from match_incentive_rows[OF m[unfolded r1]] obtain rows where
    b: "pending st1 = pending st @ rows"
    "total_matches_found st1 = total_matches_found st + length rows"
    "rows_of_incentive ext k cs inc rows"
    by auto
  have "pending st' = pending st @ concat (rows # rowss)" using a b by simp
  moreover have "total_matches_found st' = total_matches_found st + length (concat (rows # rowss))"
    using a b by simp
  moreover have "list_all2 (rows_of_incentive ext k cs) (inc # incs) (rows # rowss)"
    using a b by simp
  ultimately show ?case by blast
qed

lemma rows_of_incentive_id:
  "rows_of_incentive ext k cs inc rows \<Longrightarrow> m \<in> set rows \<Longrightarrow>
   object_incentive_id m = incentive_id inc"
  by (auto simp: rows_of_incentive_def stored_def list_all2_conv_all_nth in_set_conv_nth)

lemma concat_rows_member:
  "list_all2 P incs rowss \<Longrightarrow> m \<in> set (concat rowss) \<Longrightarrow>
   \<exists>inc rows. inc \<in> set incs \<and> P inc rows \<and> m \<in> set rows"
  by (induction incs rowss rule: list_all2_induct) auto

lemma rows_for_incentive:
  assumes "list_all2 (rows_of_incentive ext k cs) incs rowss"
    and "distinct (map incentive_id incs)" and "inc \<in> set incs"
  shows "\<exists>rows. rows_of_incentive ext k cs inc rows
           \<and> filter (\<lambda>m. object_incentive_id m = incentive_id inc) (concat rowss) = rows"
  using assms
proof (induction incs rowss rule: list_all2_induct)
  case Nil
  then show ?case by simp
next
  case (Cons i incs rows rowss)
  have other: "filter (\<lambda>m. object_incentive_id m = incentive_id x) (concat rowss) = []"
    if "incentive_id x \<notin> incentive_id ` set incs" for x
  proof -
    have "\<forall>m \<in> set (concat rowss). object_incentive_id m \<in> incentive_id ` set incs"
    proof
      fix m assume "m \<in> set (concat rowss)"
      from concat_rows_member[OF Cons.hyps(2) this] obtain j rs where
        "j \<in> set incs" "rows_of_incentive ext k cs j rs" "m \<in> set rs" by blast
      then show "object_incentive_id m \<in> incentive_id ` set incs"
        using rows_of_incentive_id by blast
    qed
    with that show ?thesis unfolding filter_empty_conv by (metis (no_types, lifting))
  qed
  show ?case
  proof (cases "inc = i")
    case True
    then have "incentive_id inc \<notin> incentive_id ` set incs" using Cons.prems(1) by auto
    from other[OF this] have "filter (\<lambda>m. object_incentive_id m = incentive_id inc) (concat rowss) = []" .
    moreover have "filter (\<lambda>m. object_incentive_id m = incentive_id inc) rows = rows"
      using rows_of_incentive_id[OF Cons.hyps(1)] True by (auto simp: filter_id_conv)
    ultimately show ?thesis using Cons.hyps(1) True by auto
  next
    case False
    then have mem: "inc \<in> set incs" using Cons.prems(2) by simp
    then have "incentive_id inc \<in> incentive_id ` set incs" by (rule imageI)
    then have "incentive_id inc \<noteq> incentive_id i" using Cons.prems(1) by auto
    then have "filter (\<lambda>m. object_incentive_id m = incentive_id inc) rows = []"
      using rows_of_incentive_id[OF Cons.hyps(1)] by (auto simp: filter_empty_conv)
    moreover from Cons.IH mem Cons.prems(1) obtain rs where
      "rows_of_incentive ext k cs inc rs"
      "filter (\<lambda>m. object_incentive_id m = incentive_id inc) (concat rowss) = rs" by auto
    ultimately show ?thesis by auto
  qed
qed

subsection \<open>Rows and calls of a run\<close>

lemma match_incentive_called:
  assumes "match_incentive ext k cs inc st = (r, st')"
    and "rule_stage ext cs inc = Inr batch" and "batch \<noteq> []"
  shows "llm_calls st' = llm_calls st @ [(inc, batch)]"
proof -
  from match_incentive_calls[OF assms(1)] obtain new where
    n: "llm_calls st' = llm_calls st @ new"
    and n': "new = [] \<or> (\<exists>b. new = [(inc, b)] \<and> rule_stage ext cs inc = Inr b \<and> b \<noteq> [])"
    by blast
  let ?st1 = "st\<lparr>llm_calls := llm_calls st @ [(inc, batch)]\<rparr>"
  have "llm_calls st' = llm_calls ?st1"
  proof (cases "semantic_stage ext k inc batch")
    case (Inl e)
    with assms show ?thesis by (auto simp: match_incentive_def Let_def)
  next
    case (Inr top_k)
    with assms have "store_matches inc top_k ?st1 = (r, st')"
      by (simp add: match_incentive_def Let_def)
    from store_matches_effect[OF this] show ?thesis by simp
  qed
  then show ?thesis by simp
qed

lemma match_loop_called:
  "match_loop ext k cs incs st = (None, st') \<Longrightarrow> inc \<in> set incs \<Longrightarrow>
   rule_stage ext cs inc = Inr batch \<Longrightarrow> batch \<noteq> [] \<Longrightarrow> (inc, batch) \<in> set (llm_calls st')"
proof (induction incs arbitrary: st)
  case Nil
  then show ?case by simp
next
  case (Cons i incs)
  obtain r1 st1 where m: "match_incentive ext k cs i st = (r1, st1)"
    by (cases "match_incentive ext k cs i st")
  with Cons.prems(1) have r1: "r1 = None" by (cases r1) auto
  with Cons.prems(1) m have l: "match_loop ext k cs incs st1 = (None, st')" by simp
  show ?case
  proof (cases "inc = i")
    case True
    with m Cons.prems(3,4) have "llm_calls st1 = llm_calls st @ [(inc, batch)]"
      using match_incentive_called by blast
    moreover from match_loop_calls[OF l] obtain new where "llm_calls st' = llm_calls st1 @ new"
      by blast
    ultimately show ?thesis by simp
  next
    case False
    with Cons.prems(2) have "inc \<in> set incs" by simp
    from Cons.IH[OF l this Cons.prems(3,4)] show ?thesis .
  qed
qed

lemma list_all2_member2:
  "list_all2 P xs ys \<Longrightarrow> y \<in> set ys \<Longrightarrow> \<exists>x \<in> set xs. P x y"
  by (induction xs ys rule: list_all2_induct) auto

lemma distinct_map_compD: "distinct (map (g \<circ> f) xs) \<Longrightarrow> distinct (map f xs)"
  by (induction xs) auto

lemma row_origin:
  assumes "rows_of_incentive ext k cs inc rows" and "m \<in> set rows"
  shows "\<exists>batch llm_scores item. rule_stage ext cs inc = Inr batch \<and> batch \<noteq> []
           \<and> object_incentive_id m = incentive_id inc \<and> 0 < object_score m
           \<and> score_companies_for_incentive ext inc batch = Inr llm_scores
           \<and> semantic_score ext llm_scores item (object_score m)
           \<and> py_getitem item ''nif'' = Inr (object_company_nif m)"
proof -
  from assms(2) have "rows \<noteq> []" by auto
  with assms(1) obtain batch top_k where
    r: "rule_stage ext cs inc = Inr batch" "batch \<noteq> []"
    and s: "semantic_stage ext k inc batch = Inr top_k"
    and l: "list_all2 (stored inc) top_k rows"
    unfolding rows_of_incentive_def by blast
  from list_all2_member2[OF l assms(2)] obtain x where x: "x \<in> set top_k" "stored inc x m"
    by blast
  from semantic_stage_member[OF s x(1)] obtain llm_scores where
    a: "0 < snd x" "score_companies_for_incentive ext inc batch = Inr llm_scores"
    "semantic_score ext llm_scores (fst x) (snd x)"
    by blast
  from x(2) have b: "object_incentive_id m = incentive_id inc"
    "py_getitem (fst x) ''nif'' = Inr (object_company_nif m)" "object_score m = snd x"
    by (simp_all add: stored_def)
  have "rule_stage ext cs inc = Inr batch \<and> batch \<noteq> []
           \<and> object_incentive_id m = incentive_id inc \<and> 0 < object_score m
           \<and> score_companies_for_incentive ext inc batch = Inr llm_scores
           \<and> semantic_score ext llm_scores (fst x) (object_score m)
           \<and> py_getitem (fst x) ''nif'' = Inr (object_company_nif m)"
    using r a b by simp
  then show ?thesis by (intro exI)
qed

lemma row_of_simps:
  "match_incentive_id (row_of ext m) = object_incentive_id m"
  "score (row_of ext m) = object_score m"
  "column_text ext (object_company_nif m) = Some t \<Longrightarrow> company_nif (row_of ext m) = t"
  by (simp_all add: row_of_def)

lemma row_of_origin:
  assumes "rows_of_incentive ext k cs inc rows" and "m \<in> set rows"
    and "column_text ext (object_company_nif m) \<noteq> None"
  shows "\<exists>batch llm_scores item. rule_stage ext cs inc = Inr batch \<and> batch \<noteq> []
           \<and> match_incentive_id (row_of ext m) = incentive_id inc \<and> 0 < score (row_of ext m)
           \<and> score_companies_for_incentive ext inc batch = Inr llm_scores
           \<and> semantic_score ext llm_scores item (score (row_of ext m))
           \<and> nif_text ext item = Inr (company_nif (row_of ext m))"
proof -
  from row_origin[OF assms(1,2)] obtain batch llm_scores item where
    o: "rule_stage ext cs inc = Inr batch" "batch \<noteq> []"
    "object_incentive_id m = incentive_id inc" "0 < object_score m"
    "score_companies_for_incentive ext inc batch = Inr llm_scores"
    "semantic_score ext llm_scores item (object_score m)"
    "py_getitem item ''nif'' = Inr (object_company_nif m)"
    by blast
  from assms(3) obtain t where t: "column_text ext (object_company_nif m) = Some t" by auto
  have n: "nif_text ext item = Inr (company_nif (row_of ext m))"
    by (simp add: nif_text_def o(7) t row_of_simps(3)[OF t])
  have "rule_stage ext cs inc = Inr batch \<and> batch \<noteq> []
           \<and> match_incentive_id (row_of ext m) = incentive_id inc \<and> 0 < score (row_of ext m)
           \<and> score_companies_for_incentive ext inc batch = Inr llm_scores
           \<and> semantic_score ext llm_scores item (score (row_of ext m))
           \<and> nif_text ext item = Inr (company_nif (row_of ext m))"
    using o n by (simp add: row_of_simps)
  then show ?thesis by (intro exI)
qed

lemma stored_scores:
  "list_all2 (stored inc) top_k rows \<Longrightarrow> map object_score rows = map snd top_k"
  by (induction top_k rows rule: list_all2_induct) (auto simp: stored_def)

lemma stored_texts:
  "list_all2 (stored inc) top_k rows \<Longrightarrow>
   \<forall>m \<in> set rows. column_text ext (object_company_nif m) \<noteq> None \<Longrightarrow>
   map (\<lambda>m. Inr (company_nif (row_of ext m))) rows = map (\<lambda>x. nif_text ext (fst x)) top_k"
  by (induction top_k rows rule: list_all2_induct)
     (auto simp: stored_def nif_text_def row_of_def)

lemma rows_sorted:
  assumes "rows_of_incentive ext k cs inc rows"
  shows "sorted_wrt (\<lambda>a b. b \<le> a) (map object_score rows)"
proof (cases "rows = []")
  case True
  then show ?thesis by simp
next
  case False
  with assms obtain batch top_k where
    s: "semantic_stage ext k inc batch = Inr top_k" and l: "list_all2 (stored inc) top_k rows"
    by (auto simp: rows_of_incentive_def)
  have "sorted_wrt (\<lambda>a b. b \<le> a) (map snd top_k)"
    using semantic_stage_sorted[OF s] by (simp add: sorted_wrt_map)
  then show ?thesis by (simp add: stored_scores[OF l])
qed

lemma rows_length:
  assumes "rows_of_incentive ext k cs inc rows" and "0 \<le> k"
  shows "length rows \<le> nat k"
proof (cases "rows = []")
  case True
  then show ?thesis by simp
next
  case False
  with assms obtain batch top_k where
    s: "semantic_stage ext k inc batch = Inr top_k" and l: "list_all2 (stored inc) top_k rows"
    by (auto simp: rows_of_incentive_def)
  from l have "length rows = length top_k" by (simp add: list_all2_lengthD)
  with semantic_stage_length[OF s assms(2)] show ?thesis by simp
qed

lemma rows_distinct:
  assumes "rows_of_incentive ext k cs inc rows"
    and "\<forall>m \<in> set rows. column_text ext (object_company_nif m) \<noteq> None"
    and "\<And>batch llm_scores items. rule_stage ext cs inc = Inr batch \<Longrightarrow> batch \<noteq> [] \<Longrightarrow>
           score_companies_for_incentive ext inc batch = Inr llm_scores \<Longrightarrow>
           py_iter llm_scores = Inr items \<Longrightarrow> distinct (map (nif_text ext) items)"
  shows "distinct (map (\<lambda>m. company_nif (row_of ext m)) rows)"
proof (cases "rows = []")
  case True
  then show ?thesis by simp
next
  case False
  with assms(1) obtain batch top_k where
    r: "rule_stage ext cs inc = Inr batch" "batch \<noteq> []"
    and s: "semantic_stage ext k inc batch = Inr top_k" and l: "list_all2 (stored inc) top_k rows"
    by (auto simp: rows_of_incentive_def)
  have "distinct (map (\<lambda>x. nif_text ext (fst x)) top_k)"
    by (rule semantic_stage_distinct[OF s]) (rule assms(3)[OF r])
  then have "distinct (map (\<lambda>m. (Inr (company_nif (row_of ext m)) :: py_error + string)) rows)"
    by (simp only: stored_texts[OF l assms(2)])
  then have "distinct (map ((Inr :: string \<Rightarrow> py_error + string)
                              \<circ> (\<lambda>m. company_nif (row_of ext m))) rows)"
    by (simp add: comp_def)
  then show ?thesis by (rule distinct_map_compD)
qed

lemma concat_rows_distinct:
  assumes "list_all2 R incs rowss" and "distinct (map incentive_id incs)"
    and "\<And>inc rows. inc \<in> set incs \<Longrightarrow> R inc rows \<Longrightarrow>
           distinct (map g rows) \<and> (\<forall>m \<in> set rows. object_incentive_id m = incentive_id inc)"
  shows "distinct (map (\<lambda>m. (object_incentive_id m, g m)) (concat rowss))"
  using assms
proof (induction incs rowss rule: list_all2_induct)
  case Nil
  then show ?case by simp
next
  case (Cons i incs rows rowss)
  let ?f = "\<lambda>m. (object_incentive_id m, g m)"
  have ri: "distinct (map g rows)" "\<forall>m \<in> set rows. object_incentive_id m = incentive_id i"
    using Cons.prems(2)[of i rows] Cons.hyps(1) by auto
  have "inj_on ?f (set rows)" using ri(1)
    by (auto simp: inj_on_def distinct_map)
  moreover have "distinct rows" using ri(1) by (simp add: distinct_map)
  ultimately have d1: "distinct (map ?f rows)" by (simp add: distinct_map)
  have d2: "distinct (map ?f (concat rowss))"
  proof (rule Cons.IH)
    show "distinct (map incentive_id incs)" using Cons.prems(1) by simp
  next
    fix inc rows assume "inc \<in> set incs" "R inc rows"
    then show "distinct (map g rows)
        \<and> (\<forall>m \<in> set rows. object_incentive_id m = incentive_id inc)"
      using Cons.prems(2)[of inc rows] by simp
  qed
  have ids: "object_incentive_id m \<in> incentive_id ` set incs" if "m \<in> set (concat rowss)" for m
  proof -
    from concat_rows_member[OF Cons.hyps(2) that] obtain j rs where
      j: "j \<in> set incs" "R j rs" "m \<in> set rs" by blast
    with Cons.prems(2)[of j rs] have "object_incentive_id m = incentive_id j" by simp
    with j(1) show ?thesis by simp
  qed
  have ni: "incentive_id i \<notin> incentive_id ` set incs" using Cons.prems(1) by simp
  have "?f a \<noteq> ?f b" if "a \<in> set rows" "b \<in> set (concat rowss)" for a b
  proof -
    from that(1) ri(2) have "object_incentive_id a = incentive_id i" by simp
    moreover from ids[OF that(2)] ni have "object_incentive_id b \<noteq> incentive_id i" by auto
    ultimately show ?thesis by simp
  qed
  then have "set (map ?f rows) \<inter> set (map ?f (concat rowss)) = {}"
    by (auto simp del: set_concat)
  with d1 d2 show ?case by simp
qed

subsection \<open>The commit\<close>

lemma commit_matches_Inr:
  "commit_matches ext ms = Inr rows \<Longrightarrow>
   rows = map (row_of ext) ms \<and> (\<forall>m \<in> set ms. column_text ext (object_company_nif m) \<noteq> None)"
  by (induction ms arbitrary: rows) (auto simp: row_of_def split: option.splits sum.splits)

lemma filter_rows_of:
  "filter (\<lambda>r. match_incentive_id r = i) (map (row_of ext) ms)
     = map (row_of ext) (filter (\<lambda>m. object_incentive_id m = i) ms)"
  by (induction ms) (simp_all add: row_of_simps)

subsection \<open>A run\<close>

lemma run_cases:
  obtains (no_data) "incentives d = [] \<or> companies d = []"
      "find_and_store_matches ext d k
         = \<lparr>db_after = d, result = Inr JNull, calls = [], stored_message = None\<rparr>"
  | (raised) e st where "incentives d \<noteq> []" "companies d \<noteq> []"
      "match_loop ext k (companies d) (incentives d)
         \<lparr>pending = [], total_matches_found = 0, llm_calls = []\<rparr> = (Some e, st)"
      "find_and_store_matches ext d k
         = \<lparr>db_after = d\<lparr>matches := []\<rparr>, result = Inl e, calls = llm_calls st,
            stored_message = None\<rparr>"
  | (commit_raised) e st where "incentives d \<noteq> []" "companies d \<noteq> []"
      "match_loop ext k (companies d) (incentives d)
         \<lparr>pending = [], total_matches_found = 0, llm_calls = []\<rparr> = (None, st)"
      "commit_matches ext (pending st) = Inl e"
      "find_and_store_matches ext d k
         = \<lparr>db_after = d\<lparr>matches := []\<rparr>, result = Inl e, calls = llm_calls st,
            stored_message = None\<rparr>"
  | (stored) st rows where "incentives d \<noteq> []" "companies d \<noteq> []"
      "match_loop ext k (companies d) (incentives d)
         \<lparr>pending = [], total_matches_found = 0, llm_calls = []\<rparr> = (None, st)"
      "commit_matches ext (pending st) = Inr rows"
      "find_and_store_matches ext d k
         = \<lparr>db_after = d\<lparr>matches := rows\<rparr>, result = Inr JNull, calls = llm_calls st,
            stored_message = Some (total_matches_found st)\<rparr>"
proof (cases "incentives d = [] \<or> companies d = []")
  case True
  then show ?thesis using no_data by (simp add: find_and_store_matches_def)
next
  case False
  obtain r st where l: "match_loop ext k (companies d) (incentives d)
         \<lparr>pending = [], total_matches_found = 0, llm_calls = []\<rparr> = (r, st)"
    by (cases "match_loop ext k (companies d) (incentives d)
         \<lparr>pending = [], total_matches_found = 0, llm_calls = []\<rparr>")
  show ?thesis
  proof (cases r)
    case None
    show ?thesis
    proof (cases "commit_matches ext (pending st)")
      case (Inl e)
      with None False l show ?thesis using commit_raised[of st e]
        by (simp add: find_and_store_matches_def)
    next
      case (Inr rows)
      with None False l show ?thesis using stored[of st rows]
        by (simp add: find_and_store_matches_def)
    qed
  next
    case (Some e)
    with False l show ?thesis using raised[of e st] by (simp add: find_and_store_matches_def)
  qed
qed

lemma run_calls:
  "subseq (map fst (calls (find_and_store_matches ext d k))) (incentives d)
   \<and> (\<forall>(inc, batch) \<in> set (calls (find_and_store_matches ext d k)).
        rule_stage ext (companies d) inc = Inr batch \<and> batch \<noteq> [])"
proof (cases rule: run_cases[where d = d and ext = ext and k = k])
  case no_data
  then show ?thesis by simp
next
  case (raised e st)
  from match_loop_calls[OF raised(3)] raised(4) show ?thesis by auto
next
  case (commit_raised e st)
  from match_loop_calls[OF commit_raised(3)] commit_raised(5) show ?thesis by auto
next
  case (stored st rows)
  from match_loop_calls[OF stored(3)] stored(5) show ?thesis by auto
qed

lemma run_result:
  "(\<exists>e. result (find_and_store_matches ext d k) = Inl e
         \<and> matches (db_after (find_and_store_matches ext d k)) = []
         \<and> incentives d \<noteq> [] \<and> companies d \<noteq> [])
   \<or> result (find_and_store_matches ext d k) = Inr JNull"
  by (cases rule: run_cases[where d = d and ext = ext and k = k]) simp_all

lemma run_stored:
  assumes "result (find_and_store_matches ext d k) = Inr v"
    and "incentives d \<noteq> []" and "companies d \<noteq> []"
  shows "\<exists>rowss. matches (db_after (find_and_store_matches ext d k))
                   = map (row_of ext) (concat rowss)
          \<and> (\<forall>m \<in> set (concat rowss). column_text ext (object_company_nif m) \<noteq> None)
          \<and> stored_message (find_and_store_matches ext d k) = Some (length (concat rowss))
          \<and> list_all2 (rows_of_incentive ext k (companies d)) (incentives d) rowss
          \<and> (\<forall>inc batch. inc \<in> set (incentives d) \<and> rule_stage ext (companies d) inc = Inr batch
                \<and> batch \<noteq> [] \<longrightarrow> (inc, batch) \<in> set (calls (find_and_store_matches ext d k)))"
proof (cases rule: run_cases[where d = d and ext = ext and k = k])
  case no_data
  with assms show ?thesis by simp
next
  case (raised e st)
  with assms show ?thesis by simp
next
  case (commit_raised e st)
  with assms show ?thesis by simp
next
  case (stored st rows)
  from match_loop_rows[OF stored(3)] obtain rowss where
    r: "pending st = concat rowss" "total_matches_found st = length (concat rowss)"
    "list_all2 (rows_of_incentive ext k (companies d)) (incentives d) rowss"
    by auto
  from commit_matches_Inr[OF stored(4)] r(1)
  have c: "rows = map (row_of ext) (concat rowss)"
    "\<forall>m \<in> set (concat rowss). column_text ext (object_company_nif m) \<noteq> None"
    by simp_all
  have 1: "matches (db_after (find_and_store_matches ext d k)) = map (row_of ext) (concat rowss)"
    by (simp add: stored(5) c(1))
  have 2: "stored_message (find_and_store_matches ext d k) = Some (length (concat rowss))"
    by (simp add: stored(5) r(2))
  have 3: "\<forall>inc batch. inc \<in> set (incentives d) \<and> rule_stage ext (companies d) inc = Inr batch
                \<and> batch \<noteq> [] \<longrightarrow> (inc, batch) \<in> set (calls (find_and_store_matches ext d k))"
    using match_loop_called[OF stored(3)] by (simp add: stored(5))
  from 1 c(2) 2 r(3) 3 show ?thesis by blast
qed

subsection \<open>Rule stage and adapter\<close>

lemma rule_stage_no_companies: "rule_stage ext [] inc = Inr batch \<Longrightarrow> batch = []"
  by (auto simp: rule_stage_def top_n_companies_def slice_to_def sorted_reverse_def
           split: sum.splits)

lemma rule_stage_batch:
  assumes "rule_stage ext cs inc = Inr batch" and "batch \<noteq> []"
  shows "\<exists>details scores ranked.
           py_json_loads ext (ai_description inc) = Inr details
           \<and> list_all2 (\<lambda>c item. fst item = c \<and> calculate_match_score ext details c = Inr (snd item))
                 cs scores
           \<and> mset ranked = mset (filter (\<lambda>item. 1 / 10 < snd item) scores)
           \<and> sorted_wrt (\<lambda>a b. snd b \<le> snd a) ranked
           \<and> (\<forall>s. filter (\<lambda>item. snd item = s) ranked
                  = filter (\<lambda>item. snd item = s) (filter (\<lambda>item. 1 / 10 < snd item) scores))
           \<and> batch = map fst (take 50 ranked)"
proof -
  from assms obtain details where d: "py_json_loads ext (ai_description inc) = Inr details"
    by (cases "py_json_loads ext (ai_description inc)") (auto simp: rule_stage_def)
  with assms obtain scores where s: "scores_of ext details cs = Inr scores"
    and b: "batch = top_n_companies scores"
    by (cases "scores_of ext details cs") (auto simp: rule_stage_def)
  let ?ranked = "sorted_reverse snd (filter (\<lambda>item. 1 / 10 < snd item) scores)"
  have "list_all2 (\<lambda>c item. fst item = c \<and> calculate_match_score ext details c = Inr (snd item))
                 cs scores"
    using s by (rule scores_of_Inr)
  moreover have "mset ?ranked = mset (filter (\<lambda>item. 1 / 10 < snd item) scores)"
    by (rule mset_sorted_reverse)
  moreover have "sorted_wrt (\<lambda>a b. snd b \<le> snd a) ?ranked"
    by (rule sorted_wrt_sorted_reverse)
  moreover have "\<forall>s. filter (\<lambda>item. snd item = s) ?ranked
                  = filter (\<lambda>item. snd item = s) (filter (\<lambda>item. 1 / 10 < snd item) scores)"
    by (simp only: sorted_reverse_stable) simp
  moreover have "batch = map fst (take 50 ?ranked)"
    using b by (simp only: top_n_companies_eq)
  ultimately show ?thesis using d by blast
qed

lemma adapter_degrades_to_zero_scores:
  assumes "py_json_loads ext (ai_description inc) = Inr structured_data"
    and "py_getitem structured_data ''object'' = Inr object_text"
    and "py_getitem structured_data ''criterios'' = Inr criterios"
    and "generate_content ext object_text criterios batch = None
         \<or> (\<exists>t. generate_content ext object_text criterios batch = Some t \<and> json_loads ext t = None)"
  shows "score_companies_for_incentive ext inc batch = Inr (zero_scores batch)"
  using assms by (auto simp: score_companies_for_incentive_def)

lemma item_scores_zero:
  "item_scores ext (map (\<lambda>c. JObj [(''nif'', JStr (nif_code c)), (''score'', JNum 0)]) batch)
     = Inr (map (\<lambda>c. (JObj [(''nif'', JStr (nif_code c)), (''score'', JNum 0)], 0)) batch)"
  by (induction batch) simp_all

lemma zero_scores_store_nothing:
  "semantic_stage ext k inc batch = Inr top_k \<Longrightarrow>
   score_companies_for_incentive ext inc batch = Inr (zero_scores batch) \<Longrightarrow> top_k = []"
  by (auto simp: semantic_stage_def top_k_scores_def zero_scores_def item_scores_zero
        filter_empty_conv slice_to_def sorted_reverse_def split: if_splits)

lemma zero_scores_never_raise:
  "score_companies_for_incentive ext inc batch = Inr (zero_scores batch) \<Longrightarrow>
   semantic_stage ext k inc batch = Inr []"
  by (auto simp: semantic_stage_def top_k_scores_def zero_scores_def item_scores_zero
        filter_empty_conv slice_to_def sorted_reverse_def)

subsection \<open>The example runs\<close>

lemma example_rule_stage:
  "rule_stage (example_ext r) [company_a, company_b] example_incentive = Inr [company_a, company_b]"
  by (simp add: example_defs model_defs)

lemma example_run:
  "find_and_store_matches (example_ext (Some scores_text)) example_db 5
   = \<lparr>db_after = example_db\<lparr>matches :=
         [\<lparr>match_incentive_id = 1, company_nif = ''500'', score = 9 / 10\<rparr>,
          \<lparr>match_incentive_id = 1, company_nif = ''501'', score = 4 / 10\<rparr>]\<rparr>,
      result = Inr JNull, calls = [(example_incentive, [company_a, company_b])],
      stored_message = Some 2\<rparr>"
  by (simp add: example_defs model_defs)

lemma example_run_large:
  "find_and_store_matches (example_ext (Some large_scores_text)) example_db 5
   = \<lparr>db_after = example_db\<lparr>matches :=
         [\<lparr>match_incentive_id = 1, company_nif = ''500'', score = 5\<rparr>,
          \<lparr>match_incentive_id = 1, company_nif = ''500'', score = 5\<rparr>]\<rparr>,
      result = Inr JNull, calls = [(example_incentive, [company_a, company_b])],
      stored_message = Some 2\<rparr>"
  by (simp add: example_defs model_defs)

text \<open>An answer with the number 500 and the text \<^verbatim>\<open>"500"\<close> gives two rows for one company.\<close>

lemma example_run_mixed:
  "matches (db_after (find_and_store_matches (example_ext (Some mixed_scores_text)) example_db 5))
   = [\<lparr>match_incentive_id = 1, company_nif = ''500'', score = 9 / 10\<rparr>,
      \<lparr>match_incentive_id = 1, company_nif = ''500'', score = 4 / 10\<rparr>]"
  by (simp add: example_defs model_defs)

lemma example_run_error_object:
  "find_and_store_matches (example_ext (Some error_object_text)) example_db 5
   = \<lparr>db_after = example_db\<lparr>matches := []\<rparr>,
      result = Inl TypeError, calls = [(example_incentive, [company_a, company_b])],
      stored_message = None\<rparr>"
  by (simp add: example_defs model_defs)

lemma porto_scores:
  "calculate_match_score (example_ext r) porto_criteria company_b = Inr 0"
  "calculate_match_score (example_ext r) porto_criteria company_a = Inr (1 / 2)"
  "calculate_match_score (example_ext r) porto_criteria company_c = Inr 1"
  "calculate_match_score (example_ext r) porto_criteria company_d = Inr (1 / 2)"
  by (simp_all add: example_defs model_defs)

lemma porto_run:
  "find_and_store_matches (example_ext None) porto_db 5
   = \<lparr>db_after = porto_db\<lparr>matches := []\<rparr>, result = Inr JNull,
      calls = [(porto_incentive, [company_c, company_a, company_d])],
      stored_message = Some 0\<rparr>"
  by (simp add: example_defs model_defs)

lemma example_adapter:
  "score_companies_for_incentive (example_ext (Some scores_text)) example_incentive
     [company_a, company_b]
   = Inr (JList [JObj [(''nif'', JStr ''500''), (''score'', JNum (9 / 10))],
                 JObj [(''nif'', JStr ''501''), (''score'', JNum (4 / 10))]])"
  by (simp add: example_defs model_defs)

subsection \<open>The table after a run\<close>

lemma run_ignores_old_matches:
  "incentives d \<noteq> [] \<Longrightarrow> companies d \<noteq> [] \<Longrightarrow>
   matches (db_after (find_and_store_matches ext (d\<lparr>matches := old\<rparr>) k))
     = matches (db_after (find_and_store_matches ext d k))"
  by (cases rule: run_cases[where d = d and ext = ext and k = k])
     (simp_all add: find_and_store_matches_def)

lemma list_all2_conj_right:
  "list_all2 P xs ys \<Longrightarrow> \<forall>y \<in> set ys. Q y \<Longrightarrow> list_all2 (\<lambda>x y. P x y \<and> Q y) xs ys"
  by (induction xs ys rule: list_all2_induct) auto

lemma run_rows_origin:
  assumes "incentives d \<noteq> []" and "companies d \<noteq> []"
    and "m \<in> set (matches (db_after (find_and_store_matches ext d k)))"
  shows "0 < score m
     \<and> (\<exists>inc batch llm_scores item. (inc, batch) \<in> set (calls (find_and_store_matches ext d k))
           \<and> match_incentive_id m = incentive_id inc
           \<and> score_companies_for_incentive ext inc batch = Inr llm_scores
           \<and> semantic_score ext llm_scores item (score m)
           \<and> nif_text ext item = Inr (company_nif m))"
proof -
  let ?out = "find_and_store_matches ext d k"
  from run_result[of ext d k] assms(3) have r: "result ?out = Inr JNull" by auto
  from run_stored[OF r assms(1,2)] obtain rowss where
    t: "matches (db_after ?out) = map (row_of ext) (concat rowss)"
    and v: "\<forall>m \<in> set (concat rowss). column_text ext (object_company_nif m) \<noteq> None"
    and l: "list_all2 (rows_of_incentive ext k (companies d)) (incentives d) rowss"
    and c: "\<forall>inc batch. inc \<in> set (incentives d) \<and> rule_stage ext (companies d) inc = Inr batch
                \<and> batch \<noteq> [] \<longrightarrow> (inc, batch) \<in> set (calls ?out)"
    by blast
  from assms(3) t obtain ob where ob: "ob \<in> set (concat rowss)" "m = row_of ext ob" by auto
  from concat_rows_member[OF l ob(1)] obtain inc rows where
    i: "inc \<in> set (incentives d)" "rows_of_incentive ext k (companies d) inc rows" "ob \<in> set rows"
    by blast
  from v ob(1) have "column_text ext (object_company_nif ob) \<noteq> None" by blast
  from row_of_origin[OF i(2,3) this] obtain batch llm_scores item where
    o: "rule_stage ext (companies d) inc = Inr batch" "batch \<noteq> []"
    "match_incentive_id m = incentive_id inc" "0 < score m"
    "score_companies_for_incentive ext inc batch = Inr llm_scores"
    "semantic_score ext llm_scores item (score m)"
    "nif_text ext item = Inr (company_nif m)"
    unfolding ob(2) by blast
  from c i(1) o(1,2) have "(inc, batch) \<in> set (calls ?out)" by blast
  with o show ?thesis by blast
qed

lemma run_rows_distinct:
  assumes "incentives d \<noteq> []" and "companies d \<noteq> []"
    and "distinct (map incentive_id (incentives d))"
    and "\<forall>inc batch llm_scores items.
           (inc, batch) \<in> set (calls (find_and_store_matches ext d k))
           \<and> score_companies_for_incentive ext inc batch = Inr llm_scores
           \<and> py_iter llm_scores = Inr items \<longrightarrow>
           distinct (map (nif_text ext) items)"
  shows "distinct (map (\<lambda>m. (match_incentive_id m, company_nif m))
           (matches (db_after (find_and_store_matches ext d k))))"
proof -
  let ?out = "find_and_store_matches ext d k"
  from run_result[of ext d k] show ?thesis
  proof
    assume "\<exists>e. result ?out = Inl e \<and> matches (db_after ?out) = []
         \<and> incentives d \<noteq> [] \<and> companies d \<noteq> []"
    then show ?thesis by auto
  next
    assume r: "result ?out = Inr JNull"
    from run_stored[OF r assms(1,2)] obtain rowss where
      t: "matches (db_after ?out) = map (row_of ext) (concat rowss)"
      and v: "\<forall>m \<in> set (concat rowss). column_text ext (object_company_nif m) \<noteq> None"
      and l: "list_all2 (rows_of_incentive ext k (companies d)) (incentives d) rowss"
      and c: "\<forall>inc batch. inc \<in> set (incentives d) \<and> rule_stage ext (companies d) inc = Inr batch
                \<and> batch \<noteq> [] \<longrightarrow> (inc, batch) \<in> set (calls ?out)"
      by blast
    let ?R = "\<lambda>inc rows. rows_of_incentive ext k (companies d) inc rows
                \<and> (\<forall>m \<in> set rows. column_text ext (object_company_nif m) \<noteq> None)"
    from v have "\<forall>rows \<in> set rowss. \<forall>m \<in> set rows. column_text ext (object_company_nif m) \<noteq> None"
      by auto
    from list_all2_conj_right[OF l this] have l': "list_all2 ?R (incentives d) rowss" .
    have "distinct (map (\<lambda>m. (object_incentive_id m, company_nif (row_of ext m))) (concat rowss))"
    proof (rule concat_rows_distinct[OF l' assms(3)])
      fix inc rows
      assume i: "inc \<in> set (incentives d)" and "?R inc rows"
      then have ro: "rows_of_incentive ext k (companies d) inc rows"
        and rv: "\<forall>m \<in> set rows. column_text ext (object_company_nif m) \<noteq> None"
        by blast+
      have "distinct (map (\<lambda>m. company_nif (row_of ext m)) rows)"
      proof (rule rows_distinct[OF ro rv])
        fix batch llm_scores items
        assume "rule_stage ext (companies d) inc = Inr batch" "batch \<noteq> []"
          and a: "score_companies_for_incentive ext inc batch = Inr llm_scores"
          "py_iter llm_scores = Inr items"
        with c i have "(inc, batch) \<in> set (calls ?out)" by blast
        with assms(4) a show "distinct (map (nif_text ext) items)" by blast
      qed
      moreover have "\<forall>m \<in> set rows. object_incentive_id m = incentive_id inc"
        using rows_of_incentive_id[OF ro] by blast
      ultimately show "distinct (map (\<lambda>m. company_nif (row_of ext m)) rows)
          \<and> (\<forall>m \<in> set rows. object_incentive_id m = incentive_id inc)" ..
    qed
    then have "distinct (map (\<lambda>m. (match_incentive_id m, company_nif m))
                 (map (row_of ext) (concat rowss)))"
      by (simp add: comp_def row_of_simps)
    then show ?thesis by (simp only: t)
  qed
qed

subsection \<open>The batch of an incentive\<close>

lemma scores_of_eq:
  "list_all2 (\<lambda>c item. fst item = c \<and> calculate_match_score ext d c = Inr (snd item)) cs scores
   \<Longrightarrow> scores_of ext d cs = Inr scores"
  by (induction cs scores rule: list_all2_induct) auto

lemma ranked_unique:
  assumes "mset ranked = mset xs"
    and "sorted_wrt (\<lambda>a b. f b \<le> f a) ranked"
    and "\<forall>s. filter (\<lambda>x. f x = s) ranked = filter (\<lambda>x. f x = s) xs"
  shows "sorted_reverse f xs = ranked"
  unfolding sorted_reverse_def
proof (rule properties_for_sort_key)
  show "mset ranked = mset xs" by (rule assms(1))
next
  fix k
  have "(\<lambda>x. - f k = - f x) = (\<lambda>x. f x = f k)" by auto
  with assms(3) show "filter (\<lambda>x. - f k = - f x) ranked = filter (\<lambda>x. - f k = - f x) xs"
    by simp
next
  show "sorted (map (\<lambda>x. - f x) ranked)"
    using assms(2) by (simp add: sorted_wrt_map)
qed

lemma rule_stage_of_ranked:
  assumes "py_json_loads ext (ai_description inc) = Inr details"
    and "list_all2 (\<lambda>c item. fst item = c \<and> calculate_match_score ext details c = Inr (snd item))
           cs scores"
    and "mset ranked = mset (filter (\<lambda>item. 1 / 10 < snd item) scores)"
    and "sorted_wrt (\<lambda>a b. snd b \<le> snd a) ranked"
    and "\<forall>s. filter (\<lambda>item. snd item = s) ranked
             = filter (\<lambda>item. snd item = s) (filter (\<lambda>item. 1 / 10 < snd item) scores)"
  shows "rule_stage ext cs inc = Inr (map fst (take 50 ranked))"
proof -
  have "sorted_reverse snd (filter (\<lambda>item. 1 / 10 < snd item) scores) = ranked"
    using assms(3,4,5) by (rule ranked_unique)
  then have "top_n_companies scores = map fst (take 50 ranked)"
    by (simp only: top_n_companies_eq)
  then show ?thesis
    by (simp add: rule_stage_def assms(1) scores_of_eq[OF assms(2)])
qed

subsection \<open>A run over 52 companies\<close>

lemma list_all2_replicate_same: "P x y \<Longrightarrow> list_all2 P (replicate n x) (replicate n y)"
  by (induction n) simp_all

lemma sorted_wrt_replicate_same: "R x x \<Longrightarrow> sorted_wrt R (replicate n x)"
  by (induction n) simp_all

lemma example_scores:
  "calculate_match_score (example_ext r) criteria company_a = Inr 1"
  "calculate_match_score (example_ext r) criteria company_b = Inr (1 / 2)"
  by (simp_all add: example_defs model_defs)

lemma example_details:
  "py_json_loads (example_ext r) (ai_description example_incentive) = Inr criteria"
  by (simp add: py_json_loads_def example_incentive_def example_ext_def example_loads_def
        criteria_text_def)

lemma many_ranked:
  "list_all2 (\<lambda>c item. fst item = c
      \<and> calculate_match_score (example_ext r) criteria c = Inr (snd item))
      (company_b # replicate 51 company_a) ((company_b, 1 / 2) # replicate 51 (company_a, 1))"
  "mset (replicate 51 (company_a, 1 :: real) @ [(company_b, 1 / 2)])
     = mset (filter (\<lambda>item. 1 / 10 < snd item)
         ((company_b, 1 / 2) # replicate 51 (company_a, 1)))"
  "sorted_wrt (\<lambda>a b. snd b \<le> snd a) (replicate 51 (company_a, 1 :: real) @ [(company_b, 1 / 2)])"
  "\<forall>s. filter (\<lambda>item. snd item = s) (replicate 51 (company_a, 1 :: real) @ [(company_b, 1 / 2)])
        = filter (\<lambda>item. snd item = s) (filter (\<lambda>item. 1 / 10 < snd item)
            ((company_b, 1 / 2) # replicate 51 (company_a, 1)))"
  by (simp_all add: example_scores list_all2_replicate_same sorted_wrt_append
        sorted_wrt_replicate_same)

lemma many_rule_stage:
  "rule_stage (example_ext r) (company_b # replicate 51 company_a) example_incentive
     = Inr (replicate 50 company_a)"
  using rule_stage_of_ranked[OF example_details many_ranked] by simp

lemma many_run:
  "find_and_store_matches (example_ext None) many_db 5
   = \<lparr>db_after = many_db\<lparr>matches := []\<rparr>, result = Inr JNull,
      calls = [(example_incentive, replicate 50 company_a)], stored_message = Some 0\<rparr>"
proof -
  have a: "score_companies_for_incentive (example_ext None) example_incentive
             (replicate 50 company_a)
      = Inr (zero_scores (replicate 50 company_a))"
    by (rule adapter_degrades_to_zero_scores[OF example_details])
       (simp_all add: criteria_def example_ext_def)
  have s: "semantic_stage (example_ext None) 5 example_incentive (replicate 50 company_a) = Inr []"
    using a by (rule zero_scores_never_raise)
  show ?thesis
    by (simp add: find_and_store_matches_def many_db_def match_incentive_def many_rule_stage s)
qed

section \<open>The claims about the scorer\<close>

text \<open>
  C1. The scorer is not total on criteria dicts: when \<^verbatim>\<open>caes\<close> is a list with an unhashable
  element (here \<^verbatim>\<open>{"caes": [["62"]]}\<close>), \<^verbatim>\<open>set(caes_value)\<close> at line 21 raises \<^verbatim>\<open>TypeError\<close>,
  for every company. The same error is caught for the company's secondary codes (line 26).
\<close>

theorem scorer_raises_on_unhashable_caes:
  "example_loads nested_caes_text = Some nested_caes
   \<and> calculate_match_score ext nested_caes c = Inl TypeError"
  by (simp add: example_defs calculate_match_score_def cae_points_def py_set_def)

lemma seven_values_attained:
  "calculate_match_score (example_ext None) (criteria_with ''porto'' ''grande'') company_b = Inr 0"
  "calculate_match_score (example_ext None) (criteria_with ''porto'' []) company_b = Inr (2 / 10)"
  "calculate_match_score (example_ext None) (criteria_with ''nacional'' ''grande'') company_b = Inr (3 / 10)"
  "calculate_match_score (example_ext None) (criteria_with ''nacional'' []) company_b = Inr (5 / 10)"
  "calculate_match_score (example_ext None) (criteria_with ''porto'' []) company_a = Inr (7 / 10)"
  "calculate_match_score (example_ext None) (criteria_with ''nacional'' ''grande'') company_a = Inr (8 / 10)"
  "calculate_match_score (example_ext None) (criteria_with ''nacional'' []) company_a = Inr 1"
  by (simp_all add: example_defs model_defs)

text \<open>
  C10. Every score the scorer returns is one of the seven values 0, 0.2, 0.3, 0.5, 0.7, 0.8
  and 1, and it is the exact quotient of a sum of weights by 100, so that rounding to four
  decimals changes nothing; for a criteria dict whose \<^verbatim>\<open>caes\<close> is hashable and a company
  with an integer employee count a score is returned; each of the seven values occurs.
\<close>

theorem score_is_one_of_seven_values:
  "(calculate_match_score ext details c = Inr s \<longrightarrow>
      s \<in> {0, 2 / 10, 3 / 10, 5 / 10, 7 / 10, 8 / 10, 1}
      \<and> (\<exists>cae loc sz. cae \<in> {0, 50} \<and> loc \<in> {0, 30} \<and> sz \<in> {0, 20}
            \<and> s = of_int (cae + loc + sz) / 100))
   \<and> (latest_number_of_employees c = Some n \<and> dict_get details ''caes'' = Inr v
        \<and> (\<forall>xs. v = JList xs \<longrightarrow> list_all hashable xs) \<longrightarrow>
      (\<exists>s'. calculate_match_score ext details c = Inr s'))
   \<and> (\<forall>x \<in> {0, 2 / 10, 3 / 10, 5 / 10, 7 / 10, 8 / 10, 1}.
        \<exists>d' c'. calculate_match_score (example_ext None) d' c' = Inr x)"
proof (intro conjI impI)
  assume a: "calculate_match_score ext details c = Inr s"
  then show "s \<in> {0, 2 / 10, 3 / 10, 5 / 10, 7 / 10, 8 / 10, 1}" by (rule score_in_seven_values)
  from a obtain cae loc sz where p: "cae_points ext details c = Inr cae"
    "location_points ext details c = Inr loc" "size_points ext details c = Inr sz"
    "s = of_int (cae + loc + sz) / 100"
    by (rule calculate_match_score_InrD)
  with cae_points_values[OF p(1)] location_points_values[OF p(2)] size_points_values[OF p(3)]
  show "\<exists>cae loc sz. cae \<in> {0, 50} \<and> loc \<in> {0, 30} \<and> sz \<in> {0, 20}
            \<and> s = of_int (cae + loc + sz) / 100"
    by blast
next
  assume "latest_number_of_employees c = Some n \<and> dict_get details ''caes'' = Inr v
        \<and> (\<forall>xs. v = JList xs \<longrightarrow> list_all hashable xs)"
  then show "\<exists>s'. calculate_match_score ext details c = Inr s'"
    using calculate_match_score_total by blast
next
  show "\<forall>x \<in> {0, 2 / 10, 3 / 10, 5 / 10, 7 / 10, 8 / 10, 1}.
        \<exists>d' c'. calculate_match_score (example_ext None) d' c' = Inr x"
    using seven_values_attained by blast
qed

theorem score_is_one_of_seven_values_witness:
  "calculate_match_score (example_ext None) criteria company_b = Inr (1 / 2)
   \<and> (\<exists>cae loc sz. cae \<in> {0, 50} \<and> loc \<in> {0, 30} \<and> sz \<in> {0, 20}
         \<and> (1 / 2 :: real) = of_int (cae + loc + sz) / 100)
   \<and> latest_number_of_employees company_b = Some 10
   \<and> dict_get criteria ''caes'' = Inr (JList [JStr ''62''])"
proof -
  have a: "calculate_match_score (example_ext None) criteria company_b = Inr (1 / 2)"
    by (simp add: example_defs model_defs)
  have b: "latest_number_of_employees company_b = Some 10"
    "dict_get criteria ''caes'' = Inr (JList [JStr ''62''])"
    by (simp_all add: example_defs)
  from score_is_one_of_seven_values
         [of "example_ext None" criteria company_b "1 / 2" 10 "JList [JStr ''62'']"] a b
  show ?thesis by blast
qed

text \<open>
  C8, as amended. For a criteria dict: with no applicable codes (no list, or the empty
  list) every company gets the 50 points; with a non-empty list of codes the points are
  given exactly when the company's code set meets it. The company's code set is the primary
  code alone when the secondary codes are missing, are not JSON or cannot be iterated, and
  otherwise the primary code with the elements read up to the first unhashable one.
\<close>

theorem industry_dimension:
  assumes "dict_get details ''caes'' = Inr caes_value"
  shows "((\<forall>xs. caes_value \<noteq> JList xs) \<or> caes_value = JList [] \<longrightarrow>
            cae_points ext details c = Inr 50)
    \<and> (\<forall>xs. caes_value = JList xs \<and> xs \<noteq> [] \<and> list_all hashable xs \<longrightarrow>
          cae_points ext details c
            = Inr (if company_caes ext c \<inter> py_key ` set xs \<noteq> {} then 50 else 0))
    \<and> (cae_secondary_codes c = None \<or> cae_secondary_codes c = Some []
        \<or> (\<exists>s. cae_secondary_codes c = Some s
               \<and> (json_loads ext s = None \<or> (\<exists>v e. json_loads ext s = Some v \<and> py_iter v = Inl e))) \<longrightarrow>
          company_caes ext c = {primary_code c})
    \<and> (\<forall>s v ys. cae_secondary_codes c = Some s \<and> s \<noteq> [] \<and> json_loads ext s = Some v
          \<and> py_iter v = Inr ys \<longrightarrow>
          company_caes ext c = insert (primary_code c) (py_key ` set (takeWhile hashable ys)))"
proof (intro conjI impI allI)
  assume "(\<forall>xs. caes_value \<noteq> JList xs) \<or> caes_value = JList []"
  with assms show "cae_points ext details c = Inr 50" by (rule cae_points_no_codes)
next
  fix xs assume "caes_value = JList xs \<and> xs \<noteq> [] \<and> list_all hashable xs"
  with assms show "cae_points ext details c
            = Inr (if company_caes ext c \<inter> py_key ` set xs \<noteq> {} then 50 else 0)"
    using cae_points_codes by blast
next
  assume "cae_secondary_codes c = None \<or> cae_secondary_codes c = Some []
        \<or> (\<exists>s. cae_secondary_codes c = Some s
               \<and> (json_loads ext s = None \<or> (\<exists>v e. json_loads ext s = Some v \<and> py_iter v = Inl e)))"
  then show "company_caes ext c = {primary_code c}"
    using company_caes_missing company_caes_unparsed company_caes_not_iterable by blast
next
  fix s v ys
  assume "cae_secondary_codes c = Some s \<and> s \<noteq> [] \<and> json_loads ext s = Some v
          \<and> py_iter v = Inr ys"
  then show "company_caes ext c = insert (primary_code c) (py_key ` set (takeWhile hashable ys))"
    using company_caes_iterable by blast
qed

theorem industry_dimension_witness:
  "dict_get criteria ''caes'' = Inr (JList [JStr ''62''])
   \<and> cae_points (example_ext None) criteria company_s = Inr 50
   \<and> company_caes (example_ext None) company_s = {JStr ''41'', JStr ''62'', JStr ''63''}
   \<and> company_caes (example_ext None) company_b = {JStr ''41''}
   \<and> cae_points (example_ext None) criteria company_b = Inr 0
   \<and> dict_get (JObj []) ''caes'' = Inr JNull
   \<and> cae_points (example_ext None) (JObj []) company_b = Inr 50"
proof -
  have a: "dict_get criteria ''caes'' = Inr (JList [JStr ''62''])" by (simp add: example_defs)
  have s: "cae_secondary_codes company_s = Some secondary_text \<and> secondary_text \<noteq> []
     \<and> json_loads (example_ext None) secondary_text = Some (JList [JStr ''62'', JStr ''63''])
     \<and> py_iter (JList [JStr ''62'', JStr ''63'']) = Inr [JStr ''62'', JStr ''63'']"
    by (simp add: example_defs)
  have b: "cae_secondary_codes company_b = None" by (simp add: example_defs)
  have p: "primary_code company_s = JStr ''41''" "primary_code company_b = JStr ''41''"
    by (simp_all add: primary_code_def example_defs)
  have l: "JList [JStr ''62''] = JList [JStr ''62''] \<and> [JStr ''62''] \<noteq> [] \<and> list_all hashable [JStr ''62'']"
    by simp
  from industry_dimension[OF a, of "example_ext None" company_s] s p(1)
  have cs: "company_caes (example_ext None) company_s = {JStr ''41'', JStr ''62'', JStr ''63''}"
    by auto
  from industry_dimension[OF a, of "example_ext None" company_b] b p(2)
  have cb: "company_caes (example_ext None) company_b = {JStr ''41''}" by auto
  from industry_dimension[OF a, of "example_ext None" company_s] l cs
  have ps: "cae_points (example_ext None) criteria company_s = Inr 50" by auto
  from industry_dimension[OF a, of "example_ext None" company_b] l cb
  have pb: "cae_points (example_ext None) criteria company_b = Inr 0" by auto
  have n: "dict_get (JObj []) ''caes'' = Inr JNull" by simp
  from industry_dimension[OF n, of "example_ext None" company_b]
  have pn: "cae_points (example_ext None) (JObj []) company_b = Inr 50" by simp
  from a cs cb ps pb n pn show ?thesis by blast
qed

text \<open>
  C8 as stated fails: the secondary codes \<^verbatim>\<open>["62", ["63"]]\<close> are malformed (the update at
  line 25 raises \<^verbatim>\<open>TypeError\<close>), yet \<^verbatim>\<open>"62"\<close> has been added and gives the 50 points, which
  the primary code alone does not.
\<close>

theorem malformed_secondary_codes_counterexample:
  "cae_secondary_codes company_m = Some partial_secondary_text
   \<and> example_loads partial_secondary_text = Some (JList [JStr ''62'', JList [JStr ''63'']])
   \<and> \<not> list_all hashable [JStr ''62'', JList [JStr ''63'']]
   \<and> company_caes (example_ext None) company_m
       = {JStr ''41'', JStr ''62''}
   \<and> cae_points (example_ext None) criteria company_m = Inr 50
   \<and> {primary_code company_m} \<inter> py_key ` set [JStr ''62''] = {}"
  by (simp add: example_defs model_defs primary_code_def insert_commute)

section \<open>The claims about a run\<close>

text \<open>
  C7 as stated fails in one point: with no incentive the function returns \<^verbatim>\<open>None\<close> (the bare
  \<^verbatim>\<open>return\<close> of line 71), not 0.
\<close>

theorem no_data_returns_zero_counterexample:
  "incentives no_incentives_db = []
   \<and> result (find_and_store_matches (example_ext None) no_incentives_db 5) = Inr JNull
   \<and> JNull \<noteq> JNum 0"
  by (simp add: no_incentives_db_def find_and_store_matches_def)

text \<open>
  C7, as amended. If the incentives or the companies are empty the function returns \<^verbatim>\<open>None\<close>,
  raises nothing, calls nothing and changes nothing: the Match table is left as it was.
\<close>

theorem no_data_is_no_op:
  "incentives d = [] \<or> companies d = [] \<Longrightarrow>
   find_and_store_matches ext d k
     = \<lparr>db_after = d, result = Inr JNull, calls = [], stored_message = None\<rparr>"
  by (simp add: find_and_store_matches_def)

theorem no_data_is_no_op_witness:
  "incentives no_incentives_db = []
   \<and> db_after (find_and_store_matches (example_ext None) no_incentives_db 5) = no_incentives_db
   \<and> matches (db_after (find_and_store_matches (example_ext None) no_incentives_db 5)) = [old_match]
   \<and> result (find_and_store_matches (example_ext None) no_incentives_db 5) = Inr JNull"
proof -
  have h: "incentives no_incentives_db = [] \<or> companies no_incentives_db = []"
    by (simp add: no_incentives_db_def)
  from no_data_is_no_op[OF h, of "example_ext None" 5] show ?thesis
    by (simp add: no_incentives_db_def)
qed

text \<open>
  C9. With the same externals (so the same answers of the language model) and unchanged
  incentives and companies, a second run leaves the database that the first one left.
\<close>

theorem rerun_leaves_same_table:
  "db_after (find_and_store_matches ext (db_after (find_and_store_matches ext d k)) k)
     = db_after (find_and_store_matches ext d k)"
proof (cases rule: run_cases[where d = d and ext = ext and k = k])
  case no_data
  then show ?thesis by simp
next
  case (raised e st)
  then show ?thesis by (simp add: find_and_store_matches_def)
next
  case (commit_raised e st)
  then show ?thesis by (simp add: find_and_store_matches_def)
next
  case (stored st rows)
  then show ?thesis by (simp add: find_and_store_matches_def)
qed

theorem rerun_leaves_same_table_witness:
  "matches (db_after (find_and_store_matches (example_ext (Some scores_text))
      (db_after (find_and_store_matches (example_ext (Some scores_text)) example_db 5)) 5))
   = [\<lparr>match_incentive_id = 1, company_nif = ''500'', score = 9 / 10\<rparr>,
      \<lparr>match_incentive_id = 1, company_nif = ''501'', score = 4 / 10\<rparr>]"
proof -
  have "matches (db_after (find_and_store_matches (example_ext (Some scores_text)) example_db 5))
   = [\<lparr>match_incentive_id = 1, company_nif = ''500'', score = 9 / 10\<rparr>,
      \<lparr>match_incentive_id = 1, company_nif = ''501'', score = 4 / 10\<rparr>]"
    by (simp add: example_run)
  then show ?thesis
    by (simp only: rerun_leaves_same_table[of "example_ext (Some scores_text)" example_db 5])
qed

text \<open>
  C6 as stated fails: a run that stores two rows returns \<^verbatim>\<open>None\<close>, not 2.
\<close>

theorem returns_count_counterexample:
  "length (matches (db_after (find_and_store_matches (example_ext (Some scores_text)) example_db 5))) = 2
   \<and> result (find_and_store_matches (example_ext (Some scores_text)) example_db 5) = Inr JNull
   \<and> JNull \<noteq> JNum 2"
  by (simp add: example_run)

text \<open>
  C6, as amended. Whenever the function returns, it returns \<^verbatim>\<open>None\<close>; when there are
  incentives and companies, the number in its last message (\<^verbatim>\<open>total_matches_found\<close>, line
  114) is the number of rows the run has stored, which are the rows of the table.
\<close>

theorem returns_none_and_prints_count:
  assumes "result (find_and_store_matches ext d k) = Inr v"
  shows "v = JNull
    \<and> (incentives d \<noteq> [] \<and> companies d \<noteq> [] \<longrightarrow>
         stored_message (find_and_store_matches ext d k)
           = Some (length (matches (db_after (find_and_store_matches ext d k)))))"
proof
  from run_result[of ext d k] assms show "v = JNull" by auto
  show "incentives d \<noteq> [] \<and> companies d \<noteq> [] \<longrightarrow>
         stored_message (find_and_store_matches ext d k)
           = Some (length (matches (db_after (find_and_store_matches ext d k))))"
  proof
    assume "incentives d \<noteq> [] \<and> companies d \<noteq> []"
    with run_stored[OF assms] obtain rowss where
      "matches (db_after (find_and_store_matches ext d k)) = map (row_of ext) (concat rowss)"
      "stored_message (find_and_store_matches ext d k) = Some (length (concat rowss))"
      by blast
    then show "stored_message (find_and_store_matches ext d k)
           = Some (length (matches (db_after (find_and_store_matches ext d k))))"
      by simp
  qed
qed

theorem returns_none_and_prints_count_witness:
  "result (find_and_store_matches (example_ext (Some scores_text)) example_db 5) = Inr JNull
   \<and> stored_message (find_and_store_matches (example_ext (Some scores_text)) example_db 5) = Some 2"
proof -
  have r: "result (find_and_store_matches (example_ext (Some scores_text)) example_db 5) = Inr JNull"
    by (simp add: example_run)
  have n: "incentives example_db \<noteq> [] \<and> companies example_db \<noteq> []"
    by (simp add: example_defs)
  have l: "length (matches (db_after (find_and_store_matches (example_ext (Some scores_text)) example_db 5))) = 2"
    by (simp add: example_run)
  from returns_none_and_prints_count[OF r] n l r show ?thesis by simp
qed

text \<open>
  C2. The calls to the adapter follow the order of the incentives, at most one for each; the
  batch of a call is not empty, has at most 50 companies, and is the first 50 of the
  companies whose score (one for every company) is above 0.1, in descending order of score,
  companies of equal score in their original order. In a run that returns, every incentive
  whose description parses and that has a company above 0.1 gets its call, with that batch.
\<close>

theorem rule_stage_candidates:
  "subseq (map fst (calls (find_and_store_matches ext d k))) (incentives d)
   \<and> (\<forall>(inc, batch) \<in> set (calls (find_and_store_matches ext d k)).
        batch \<noteq> [] \<and> length batch \<le> 50
        \<and> (\<exists>details scores ranked.
             py_json_loads ext (ai_description inc) = Inr details
             \<and> list_all2 (\<lambda>c item. fst item = c
                    \<and> calculate_match_score ext details c = Inr (snd item)) (companies d) scores
             \<and> mset ranked = mset (filter (\<lambda>item. 1 / 10 < snd item) scores)
             \<and> sorted_wrt (\<lambda>a b. snd b \<le> snd a) ranked
             \<and> (\<forall>s. filter (\<lambda>item. snd item = s) ranked
                    = filter (\<lambda>item. snd item = s) (filter (\<lambda>item. 1 / 10 < snd item) scores))
             \<and> batch = map fst (take 50 ranked)))
   \<and> (\<forall>v inc details scores ranked.
        result (find_and_store_matches ext d k) = Inr v \<and> inc \<in> set (incentives d)
        \<and> py_json_loads ext (ai_description inc) = Inr details
             \<and> list_all2 (\<lambda>c item. fst item = c
                    \<and> calculate_match_score ext details c = Inr (snd item)) (companies d) scores
             \<and> mset ranked = mset (filter (\<lambda>item. 1 / 10 < snd item) scores)
             \<and> sorted_wrt (\<lambda>a b. snd b \<le> snd a) ranked
             \<and> (\<forall>s. filter (\<lambda>item. snd item = s) ranked
                    = filter (\<lambda>item. snd item = s) (filter (\<lambda>item. 1 / 10 < snd item) scores))
        \<and> ranked \<noteq> [] \<longrightarrow>
        (inc, map fst (take 50 ranked)) \<in> set (calls (find_and_store_matches ext d k)))"
proof (intro conjI)
  show "subseq (map fst (calls (find_and_store_matches ext d k))) (incentives d)"
    using run_calls[of ext d k] by (rule conjunct1)
next
  let ?P = "\<lambda>inc batch. batch \<noteq> [] \<and> length batch \<le> 50
        \<and> (\<exists>details scores ranked.
             py_json_loads ext (ai_description inc) = Inr details
             \<and> list_all2 (\<lambda>c item. fst item = c
                    \<and> calculate_match_score ext details c = Inr (snd item)) (companies d) scores
             \<and> mset ranked = mset (filter (\<lambda>item. 1 / 10 < snd item) scores)
             \<and> sorted_wrt (\<lambda>a b. snd b \<le> snd a) ranked
             \<and> (\<forall>s. filter (\<lambda>item. snd item = s) ranked
                    = filter (\<lambda>item. snd item = s) (filter (\<lambda>item. 1 / 10 < snd item) scores))
             \<and> batch = map fst (take 50 ranked))"
  show "\<forall>(inc, batch) \<in> set (calls (find_and_store_matches ext d k)). ?P inc batch"
  proof (intro ballI)
    fix x assume m: "x \<in> set (calls (find_and_store_matches ext d k))"
    obtain inc batch where x: "x = (inc, batch)" by (cases x)
    from run_calls[of ext d k] m x
    have r: "rule_stage ext (companies d) inc = Inr batch" "batch \<noteq> []" by auto
    from rule_stage_batch[OF r] obtain details scores ranked where
      b: "py_json_loads ext (ai_description inc) = Inr details
             \<and> list_all2 (\<lambda>c item. fst item = c
                    \<and> calculate_match_score ext details c = Inr (snd item)) (companies d) scores
             \<and> mset ranked = mset (filter (\<lambda>item. 1 / 10 < snd item) scores)
             \<and> sorted_wrt (\<lambda>a b. snd b \<le> snd a) ranked
             \<and> (\<forall>s. filter (\<lambda>item. snd item = s) ranked
                    = filter (\<lambda>item. snd item = s) (filter (\<lambda>item. 1 / 10 < snd item) scores))
             \<and> batch = map fst (take 50 ranked)"
      by blast
    then have "length batch \<le> 50" by simp
    with r(2) b have "?P inc batch" by blast
    then show "case x of (inc, batch) \<Rightarrow> ?P inc batch" unfolding x prod.case .
  qed
next
  show "\<forall>v inc details scores ranked.
        result (find_and_store_matches ext d k) = Inr v \<and> inc \<in> set (incentives d)
        \<and> py_json_loads ext (ai_description inc) = Inr details
             \<and> list_all2 (\<lambda>c item. fst item = c
                    \<and> calculate_match_score ext details c = Inr (snd item)) (companies d) scores
             \<and> mset ranked = mset (filter (\<lambda>item. 1 / 10 < snd item) scores)
             \<and> sorted_wrt (\<lambda>a b. snd b \<le> snd a) ranked
             \<and> (\<forall>s. filter (\<lambda>item. snd item = s) ranked
                    = filter (\<lambda>item. snd item = s) (filter (\<lambda>item. 1 / 10 < snd item) scores))
        \<and> ranked \<noteq> [] \<longrightarrow>
        (inc, map fst (take 50 ranked)) \<in> set (calls (find_and_store_matches ext d k))"
  proof (intro allI impI, elim conjE)
    fix v inc details scores ranked
    assume res: "result (find_and_store_matches ext d k) = Inr v"
      and mem: "inc \<in> set (incentives d)"
      and a: "py_json_loads ext (ai_description inc) = Inr details"
      "list_all2 (\<lambda>c item. fst item = c
          \<and> calculate_match_score ext details c = Inr (snd item)) (companies d) scores"
      "mset ranked = mset (filter (\<lambda>item. 1 / 10 < snd item) scores)"
      "sorted_wrt (\<lambda>a b. snd b \<le> snd a) ranked"
      "\<forall>s. filter (\<lambda>item. snd item = s) ranked
            = filter (\<lambda>item. snd item = s) (filter (\<lambda>item. 1 / 10 < snd item) scores)"
      and ne: "ranked \<noteq> []"
    have rs: "rule_stage ext (companies d) inc = Inr (map fst (take 50 ranked))"
      using a by (rule rule_stage_of_ranked)
    have bn: "map fst (take 50 ranked) \<noteq> []" using ne by (cases ranked) simp_all
    have i: "incentives d \<noteq> []" using mem by auto
    have c: "companies d \<noteq> []"
    proof
      assume e: "companies d = []"
      from rs have "rule_stage ext [] inc = Inr (map fst (take 50 ranked))" by (simp add: e)
      from rule_stage_no_companies[OF this] bn show False by simp
    qed
    from run_stored[OF res i c] mem rs bn
    show "(inc, map fst (take 50 ranked)) \<in> set (calls (find_and_store_matches ext d k))"
      by blast
  qed
qed

theorem rule_stage_candidates_witness:
  "(calls (find_and_store_matches (example_ext None) porto_db 5)
     = [(porto_incentive, [company_c, company_a, company_d])]
   \<and> subseq [porto_incentive] (incentives porto_db)
   \<and> result (find_and_store_matches (example_ext None) porto_db 5) = Inr JNull
   \<and> porto_incentive \<in> set (incentives porto_db)
   \<and> py_json_loads (example_ext None) (ai_description porto_incentive) = Inr porto_criteria
   \<and> list_all2 (\<lambda>c item. fst item = c
          \<and> calculate_match_score (example_ext None) porto_criteria c = Inr (snd item))
        (companies porto_db)
        [(company_b, 0), (company_a, 1 / 2), (company_c, 1), (company_d, 1 / 2)]
   \<and> mset [(company_c, 1 :: real), (company_a, 1 / 2), (company_d, 1 / 2)]
       = mset (filter (\<lambda>item. 1 / 10 < snd item)
           [(company_b, 0), (company_a, 1 / 2), (company_c, 1), (company_d, 1 / 2)])
   \<and> sorted_wrt (\<lambda>a b. snd b \<le> snd a)
        [(company_c, 1 :: real), (company_a, 1 / 2), (company_d, 1 / 2)]
   \<and> (porto_incentive,
        map fst (take 50 [(company_c, 1 :: real), (company_a, 1 / 2), (company_d, 1 / 2)]))
       \<in> set (calls (find_and_store_matches (example_ext None) porto_db 5)))
   \<and> (result (find_and_store_matches (example_ext None) many_db 5) = Inr JNull
      \<and> length (companies many_db) = 52
      \<and> (example_incentive,
           map fst (take 50 (replicate 51 (company_a, 1 :: real) @ [(company_b, 1 / 2)])))
          \<in> set (calls (find_and_store_matches (example_ext None) many_db 5))
      \<and> map fst (take 50 (replicate 51 (company_a, 1 :: real) @ [(company_b, 1 / 2)]))
          = replicate 50 company_a)"
proof -
  let ?out = "find_and_store_matches (example_ext None) porto_db 5"
  let ?scores = "[(company_b, 0 :: real), (company_a, 1 / 2), (company_c, 1), (company_d, 1 / 2)]"
  let ?ranked = "[(company_c, 1 :: real), (company_a, 1 / 2), (company_d, 1 / 2)]"
  note t = rule_stage_candidates[of "example_ext None" porto_db 5]
  have c: "calls ?out = [(porto_incentive, [company_c, company_a, company_d])]"
    by (simp add: porto_run)
  from t have "subseq (map fst (calls ?out)) (incentives porto_db)" by (rule conjunct1)
  then have 1: "subseq [porto_incentive] (incentives porto_db)" by (simp add: c)
  have 2: "result ?out = Inr JNull" by (simp add: porto_run)
  have 3: "porto_incentive \<in> set (incentives porto_db)" by (simp add: porto_db_def)
  have 4: "py_json_loads (example_ext None) (ai_description porto_incentive) = Inr porto_criteria"
    by (simp add: py_json_loads_def porto_incentive_def example_ext_def example_loads_def
          example_defs)
  have 5: "list_all2 (\<lambda>c item. fst item = c
          \<and> calculate_match_score (example_ext None) porto_criteria c = Inr (snd item))
        (companies porto_db) ?scores"
    by (simp add: porto_db_def porto_scores)
  have 6: "mset ?ranked = mset (filter (\<lambda>item. 1 / 10 < snd item) ?scores)"
    by simp
  have 7: "sorted_wrt (\<lambda>a b. snd b \<le> snd a) ?ranked" by simp
  have 8: "\<forall>s. filter (\<lambda>item. snd item = s) ?ranked
            = filter (\<lambda>item. snd item = s) (filter (\<lambda>item. 1 / 10 < snd item) ?scores)"
    by simp
  have 9: "?ranked \<noteq> []" by simp
  from t have "\<forall>v inc details scores ranked.
        result (find_and_store_matches (example_ext None) porto_db 5) = Inr v \<and> inc \<in> set (incentives porto_db)
        \<and> py_json_loads (example_ext None) (ai_description inc) = Inr details
             \<and> list_all2 (\<lambda>c item. fst item = c
                    \<and> calculate_match_score (example_ext None) details c = Inr (snd item)) (companies porto_db) scores
             \<and> mset ranked = mset (filter (\<lambda>item. 1 / 10 < snd item) scores)
             \<and> sorted_wrt (\<lambda>a b. snd b \<le> snd a) ranked
             \<and> (\<forall>s. filter (\<lambda>item. snd item = s) ranked
                    = filter (\<lambda>item. snd item = s) (filter (\<lambda>item. 1 / 10 < snd item) scores))
        \<and> ranked \<noteq> [] \<longrightarrow>
        (inc, map fst (take 50 ranked)) \<in> set (calls (find_and_store_matches (example_ext None) porto_db 5))"
    by (rule conjunct2[THEN conjunct2])
  with 2 3 4 5 6 7 8 9
  have 10: "(porto_incentive, map fst (take 50 ?ranked)) \<in> set (calls ?out)" by blast
  note porto = conjI[OF c conjI[OF 1 conjI[OF 2 conjI[OF 3 conjI[OF 4 conjI[OF 5
          conjI[OF 6 conjI[OF 7 10]]]]]]]]
  let ?many = "find_and_store_matches (example_ext None) many_db 5"
  let ?top = "replicate 51 (company_a, 1 :: real) @ [(company_b, 1 / 2)]"
  note u = rule_stage_candidates[of "example_ext None" many_db 5]
  have 11: "result ?many = Inr JNull" by (simp add: many_run)
  have 12: "length (companies many_db) = 52" by (simp add: many_db_def)
  have 13: "example_incentive \<in> set (incentives many_db)" by (simp add: many_db_def)
  have 14: "companies many_db = company_b # replicate 51 company_a" by (simp add: many_db_def)
  have 15: "?top \<noteq> []" by simp
  from u have "\<forall>v inc details scores ranked.
        result (find_and_store_matches (example_ext None) many_db 5) = Inr v \<and> inc \<in> set (incentives many_db)
        \<and> py_json_loads (example_ext None) (ai_description inc) = Inr details
             \<and> list_all2 (\<lambda>c item. fst item = c
                    \<and> calculate_match_score (example_ext None) details c = Inr (snd item)) (companies many_db) scores
             \<and> mset ranked = mset (filter (\<lambda>item. 1 / 10 < snd item) scores)
             \<and> sorted_wrt (\<lambda>a b. snd b \<le> snd a) ranked
             \<and> (\<forall>s. filter (\<lambda>item. snd item = s) ranked
                    = filter (\<lambda>item. snd item = s) (filter (\<lambda>item. 1 / 10 < snd item) scores))
        \<and> ranked \<noteq> [] \<longrightarrow>
        (inc, map fst (take 50 ranked)) \<in> set (calls (find_and_store_matches (example_ext None) many_db 5))"
    by (rule conjunct2[THEN conjunct2])
  with 11 13 example_details[of None] many_ranked(1)[of None, folded 14] many_ranked(2,3,4) 15
  have 16: "(example_incentive, map fst (take 50 ?top)) \<in> set (calls ?many)" by blast
  have 17: "map fst (take 50 ?top) = replicate 50 company_a" by simp
  note many = conjI[OF 11 conjI[OF 12 conjI[OF 16 17]]]
  show ?thesis by (rule conjI[OF porto many])
qed

text \<open>
  C3. After a run with \<open>k = 5\<close> over incentives with distinct identifiers, for an incentive
  with a non-empty batch of candidates: at most 5 rows refer to it, each row has a score
  above 0 which is the score of an item of the adapter's answer for that batch (with the
  item's \<^verbatim>\<open>nif\<close> as the column stores it), and the rows are in descending order of score.
\<close>

theorem top_k_rows_of_an_incentive:
  assumes "distinct (map incentive_id (incentives d))"
    and "inc \<in> set (incentives d)"
    and "rule_stage ext (companies d) inc = Inr batch" and "batch \<noteq> []"
    and "rows = filter (\<lambda>m. match_incentive_id m = incentive_id inc)
                  (matches (db_after (find_and_store_matches ext d 5)))"
  shows "length rows \<le> 5
    \<and> (\<forall>m \<in> set rows. 0 < score m
          \<and> (\<exists>llm_scores item. score_companies_for_incentive ext inc batch = Inr llm_scores
                \<and> semantic_score ext llm_scores item (score m)
                \<and> nif_text ext item = Inr (company_nif m)))
    \<and> sorted_wrt (\<lambda>a b. b \<le> a) (map score rows)"
proof -
  let ?out = "find_and_store_matches ext d 5"
  from run_result[of ext d 5] show ?thesis
  proof
    assume "\<exists>e. result ?out = Inl e \<and> matches (db_after ?out) = []
         \<and> incentives d \<noteq> [] \<and> companies d \<noteq> []"
    then have "rows = []" using assms(5) by auto
    then show ?thesis by simp
  next
    assume r: "result ?out = Inr JNull"
    have i: "incentives d \<noteq> []" using assms(2) by auto
    have c: "companies d \<noteq> []"
    proof
      assume e: "companies d = []"
      from assms(3) have "rule_stage ext [] inc = Inr batch" by (simp add: e)
      from rule_stage_no_companies[OF this] assms(4) show False by simp
    qed
    from run_stored[OF r i c] obtain rowss where
      t: "matches (db_after ?out) = map (row_of ext) (concat rowss)"
      and v: "\<forall>m \<in> set (concat rowss). column_text ext (object_company_nif m) \<noteq> None"
      and l: "list_all2 (rows_of_incentive ext 5 (companies d)) (incentives d) rowss"
      by blast
    from rows_for_incentive[OF l assms(1,2)] obtain objs where
      ro: "rows_of_incentive ext 5 (companies d) inc objs"
      and f: "filter (\<lambda>m. object_incentive_id m = incentive_id inc) (concat rowss) = objs"
      by blast
    have rows: "rows = map (row_of ext) objs"
      using assms(5) t f by (simp add: filter_rows_of)
    from f have sub: "set objs \<subseteq> set (concat rowss)" by auto
    have 1: "length rows \<le> 5" using rows_length[OF ro] by (simp add: rows)
    have "map score rows = map object_score objs"
      by (simp add: rows comp_def row_of_simps)
    then have 2: "sorted_wrt (\<lambda>a b. b \<le> a) (map score rows)"
      using rows_sorted[OF ro] by simp
    have 3: "\<forall>m \<in> set rows. 0 < score m
          \<and> (\<exists>llm_scores item. score_companies_for_incentive ext inc batch = Inr llm_scores
                \<and> semantic_score ext llm_scores item (score m)
                \<and> nif_text ext item = Inr (company_nif m))"
    proof
      fix m assume "m \<in> set rows"
      with rows obtain ob where ob: "ob \<in> set objs" "m = row_of ext ob" by auto
      from v sub ob(1) have "column_text ext (object_company_nif ob) \<noteq> None" by blast
      from row_of_origin[OF ro ob(1) this] obtain b llm_scores item where
        o: "rule_stage ext (companies d) inc = Inr b" "0 < score m"
        "score_companies_for_incentive ext inc b = Inr llm_scores"
        "semantic_score ext llm_scores item (score m)"
        "nif_text ext item = Inr (company_nif m)"
        unfolding ob(2) by blast
      from o(1) assms(3) have "b = batch" by simp
      with o show "0 < score m
          \<and> (\<exists>llm_scores item. score_companies_for_incentive ext inc batch = Inr llm_scores
                \<and> semantic_score ext llm_scores item (score m)
                \<and> nif_text ext item = Inr (company_nif m))"
        by blast
    qed
    from 1 2 3 show ?thesis by blast
  qed
qed

theorem top_k_rows_of_an_incentive_witness:
  "distinct (map incentive_id (incentives example_db))
   \<and> example_incentive \<in> set (incentives example_db)
   \<and> rule_stage (example_ext (Some scores_text)) (companies example_db) example_incentive
       = Inr [company_a, company_b]
   \<and> filter (\<lambda>m. match_incentive_id m = incentive_id example_incentive)
        (matches (db_after (find_and_store_matches (example_ext (Some scores_text)) example_db 5)))
       = [\<lparr>match_incentive_id = 1, company_nif = ''500'', score = 9 / 10\<rparr>,
          \<lparr>match_incentive_id = 1, company_nif = ''501'', score = 4 / 10\<rparr>]
   \<and> length [\<lparr>match_incentive_id = 1, company_nif = ''500'', score = 9 / 10\<rparr>,
          \<lparr>match_incentive_id = 1, company_nif = ''501'', score = 4 / 10\<rparr>] \<le> 5
   \<and> sorted_wrt (\<lambda>a b. b \<le> a) (map score
         [\<lparr>match_incentive_id = 1, company_nif = ''500'', score = 9 / 10\<rparr>,
          \<lparr>match_incentive_id = 1, company_nif = ''501'', score = 4 / 10\<rparr>])"
proof -
  let ?rows = "[\<lparr>match_incentive_id = 1, company_nif = ''500'', score = 9 / 10\<rparr>,
          \<lparr>match_incentive_id = 1, company_nif = ''501'', score = 4 / 10\<rparr>]"
  have 1: "distinct (map incentive_id (incentives example_db))" by (simp add: example_db_def)
  have 2: "example_incentive \<in> set (incentives example_db)" by (simp add: example_db_def)
  have 3: "rule_stage (example_ext (Some scores_text)) (companies example_db) example_incentive
       = Inr [company_a, company_b]"
    by (simp add: example_db_def example_rule_stage)
  have 4: "[company_a, company_b] \<noteq> []" by simp
  have 5: "?rows = filter (\<lambda>m. match_incentive_id m = incentive_id example_incentive)
        (matches (db_after (find_and_store_matches (example_ext (Some scores_text)) example_db 5)))"
    by (simp add: example_run example_incentive_def)
  note t = top_k_rows_of_an_incentive[OF 1 2 3 4 5]
  from t have 6: "length ?rows \<le> 5" by (rule conjunct1)
  from t have 7: "sorted_wrt (\<lambda>a b. b \<le> a) (map score ?rows)" by (rule conjunct2[THEN conjunct2])
  show ?thesis by (rule conjI[OF 1 conjI[OF 2 conjI[OF 3 conjI[OF 5[symmetric] conjI[OF 6 7]]]]])
qed

text \<open>
  C5 as stated fails: when the language model answers with the same \<^verbatim>\<open>nif\<close> twice and the
  score 5, two rows with the same incentive and company are stored, with a score above 1.
\<close>

theorem match_table_counterexample:
  "matches (db_after (find_and_store_matches (example_ext (Some large_scores_text)) example_db 5))
     = [\<lparr>match_incentive_id = 1, company_nif = ''500'', score = 5\<rparr>,
        \<lparr>match_incentive_id = 1, company_nif = ''500'', score = 5\<rparr>]
   \<and> \<not> score \<lparr>match_incentive_id = 1, company_nif = ''500'', score = 5\<rparr> \<le> 1"
  by (simp add: example_run_large)

text \<open>
  C5, as amended. After a run over incentives and companies that are not empty, the table
  does not depend on the rows it had before; every row has a score above 0, which is the
  score of an item answered by the adapter in a call of this run, so the scores are at most
  1 when the adapter's scores are; and no two rows have the same incentive and company when
  the incentives have distinct identifiers and no answer of the adapter has two items whose
  \<^verbatim>\<open>nif\<close> is stored as the same text.
\<close>

theorem match_table_after_run:
  assumes "incentives d \<noteq> []" and "companies d \<noteq> []"
  shows "matches (db_after (find_and_store_matches ext (d\<lparr>matches := old\<rparr>) k))
           = matches (db_after (find_and_store_matches ext d k))
    \<and> (\<forall>m \<in> set (matches (db_after (find_and_store_matches ext d k))).
          0 < score m
          \<and> (\<exists>inc batch llm_scores item.
                (inc, batch) \<in> set (calls (find_and_store_matches ext d k))
                \<and> match_incentive_id m = incentive_id inc
                \<and> score_companies_for_incentive ext inc batch = Inr llm_scores
                \<and> semantic_score ext llm_scores item (score m)
                \<and> nif_text ext item = Inr (company_nif m)))
    \<and> ((\<forall>inc batch llm_scores item s.
            (inc, batch) \<in> set (calls (find_and_store_matches ext d k))
            \<and> score_companies_for_incentive ext inc batch = Inr llm_scores
            \<and> semantic_score ext llm_scores item s \<longrightarrow> s \<le> 1) \<longrightarrow>
        (\<forall>m \<in> set (matches (db_after (find_and_store_matches ext d k))). score m \<le> 1))
    \<and> (distinct (map incentive_id (incentives d))
        \<and> (\<forall>inc batch llm_scores items.
              (inc, batch) \<in> set (calls (find_and_store_matches ext d k))
              \<and> score_companies_for_incentive ext inc batch = Inr llm_scores
              \<and> py_iter llm_scores = Inr items \<longrightarrow>
              distinct (map (nif_text ext) items)) \<longrightarrow>
        distinct (map (\<lambda>m. (match_incentive_id m, company_nif m))
           (matches (db_after (find_and_store_matches ext d k)))))"
proof (intro conjI impI ballI)
  show "matches (db_after (find_and_store_matches ext (d\<lparr>matches := old\<rparr>) k))
           = matches (db_after (find_and_store_matches ext d k))"
    using assms by (rule run_ignores_old_matches)
next
  fix m assume "m \<in> set (matches (db_after (find_and_store_matches ext d k)))"
  from run_rows_origin[OF assms this]
  show "0 < score m"
    and "\<exists>inc batch llm_scores item.
                (inc, batch) \<in> set (calls (find_and_store_matches ext d k))
                \<and> match_incentive_id m = incentive_id inc
                \<and> score_companies_for_incentive ext inc batch = Inr llm_scores
                \<and> semantic_score ext llm_scores item (score m)
                \<and> nif_text ext item = Inr (company_nif m)"
    by blast+
next
  fix m
  assume b: "\<forall>inc batch llm_scores item s.
            (inc, batch) \<in> set (calls (find_and_store_matches ext d k))
            \<and> score_companies_for_incentive ext inc batch = Inr llm_scores
            \<and> semantic_score ext llm_scores item s \<longrightarrow> s \<le> 1"
    and "m \<in> set (matches (db_after (find_and_store_matches ext d k)))"
  from run_rows_origin[OF assms this(2)] obtain inc batch llm_scores item where
    "(inc, batch) \<in> set (calls (find_and_store_matches ext d k))"
    "score_companies_for_incentive ext inc batch = Inr llm_scores"
    "semantic_score ext llm_scores item (score m)"
    by blast
  with b show "score m \<le> 1" by blast
next
  assume "distinct (map incentive_id (incentives d))
        \<and> (\<forall>inc batch llm_scores items.
              (inc, batch) \<in> set (calls (find_and_store_matches ext d k))
              \<and> score_companies_for_incentive ext inc batch = Inr llm_scores
              \<and> py_iter llm_scores = Inr items \<longrightarrow>
              distinct (map (nif_text ext) items))"
  then show "distinct (map (\<lambda>m. (match_incentive_id m, company_nif m))
           (matches (db_after (find_and_store_matches ext d k))))"
    using run_rows_distinct[OF assms] by blast
qed

theorem match_table_after_run_witness:
  "incentives example_db \<noteq> [] \<and> companies example_db \<noteq> []
   \<and> distinct (map incentive_id (incentives example_db))
   \<and> matches (db_after (find_and_store_matches (example_ext (Some scores_text))
        (example_db\<lparr>matches := []\<rparr>) 5))
      = [\<lparr>match_incentive_id = 1, company_nif = ''500'', score = 9 / 10\<rparr>,
         \<lparr>match_incentive_id = 1, company_nif = ''501'', score = 4 / 10\<rparr>]
   \<and> distinct [(1 :: int, ''500''), (1, ''501'')]
   \<and> score \<lparr>match_incentive_id = 1, company_nif = ''500'', score = 9 / 10\<rparr> \<le> 1"
proof -
  let ?ext = "example_ext (Some scores_text)"
  let ?out = "find_and_store_matches ?ext example_db 5"
  have 1: "incentives example_db \<noteq> []" and 2: "companies example_db \<noteq> []"
    and 3: "distinct (map incentive_id (incentives example_db))"
    by (simp_all add: example_db_def)
  have t: "matches (db_after ?out)
      = [\<lparr>match_incentive_id = 1, company_nif = ''500'', score = 9 / 10\<rparr>,
         \<lparr>match_incentive_id = 1, company_nif = ''501'', score = 4 / 10\<rparr>]"
    by (simp add: example_run)
  have 4: "\<forall>inc batch llm_scores items.
              (inc, batch) \<in> set (calls ?out)
              \<and> score_companies_for_incentive ?ext inc batch = Inr llm_scores
              \<and> py_iter llm_scores = Inr items \<longrightarrow>
              distinct (map (nif_text ?ext) items)"
    by (auto simp: example_run example_adapter nif_text_def)
  note th = match_table_after_run[OF 1 2, of ?ext "[]" 5]
  from th have "matches (db_after (find_and_store_matches ?ext (example_db\<lparr>matches := []\<rparr>) 5))
      = matches (db_after ?out)" by (rule conjunct1)
  then have 5: "matches (db_after (find_and_store_matches ?ext (example_db\<lparr>matches := []\<rparr>) 5))
      = [\<lparr>match_incentive_id = 1, company_nif = ''500'', score = 9 / 10\<rparr>,
         \<lparr>match_incentive_id = 1, company_nif = ''501'', score = 4 / 10\<rparr>]"
    by (simp only: t)
  from th 3 4 have "distinct (map (\<lambda>m. (match_incentive_id m, company_nif m))
           (matches (db_after ?out)))" by blast
  then have 6: "distinct [(1 :: int, ''500''), (1, ''501'')]" by (simp add: t)
  have 7: "\<forall>inc batch llm_scores item s.
            (inc, batch) \<in> set (calls ?out)
            \<and> score_companies_for_incentive ?ext inc batch = Inr llm_scores
            \<and> semantic_score ?ext llm_scores item s \<longrightarrow> s \<le> 1"
    by (auto simp: example_run example_adapter semantic_score_def)
  from th 7 have "\<forall>m \<in> set (matches (db_after ?out)). score m \<le> 1" by blast
  then have 8: "score \<lparr>match_incentive_id = 1, company_nif = ''500'', score = 9 / 10\<rparr> \<le> 1"
    by (simp add: t)
  show ?thesis by (rule conjI[OF 1 conjI[OF 2 conjI[OF 3 conjI[OF 5 conjI[OF 6 8]]]]])
qed

text \<open>
  C4. An answer of the language model that is valid JSON of the wrong shape (here the object
  \<^verbatim>\<open>{"error": "quota"}\<close>) is returned by the adapter as it is, not replaced by zero scores;
  line 103 then raises \<^verbatim>\<open>TypeError\<close> and the run ends with the table already emptied.
\<close>

theorem wrong_shape_answer_aborts_run:
  "example_loads error_object_text = Some (JObj [(''error'', JStr ''quota'')])
   \<and> score_companies_for_incentive (example_ext (Some error_object_text)) example_incentive
        [company_a, company_b]
      = Inr (JObj [(''error'', JStr ''quota'')])
   \<and> result (find_and_store_matches (example_ext (Some error_object_text)) example_db 5)
      = Inl TypeError
   \<and> matches (db_after (find_and_store_matches (example_ext (Some error_object_text)) example_db 5))
      = []"
proof -
  have "example_loads error_object_text = Some (JObj [(''error'', JStr ''quota'')])"
    by (simp add: example_defs)
  moreover have "score_companies_for_incentive (example_ext (Some error_object_text)) example_incentive
        [company_a, company_b] = Inr (JObj [(''error'', JStr ''quota'')])"
    by (simp add: example_defs model_defs)
  ultimately show ?thesis by (simp add: example_run_error_object)
qed

end
